theory Spec2Isabelle
  imports Complex_Main
begin

section \<open>JavaScript values\<close>

text \<open>
  The wrappers of geoscript-js receive untyped configuration data.  A value is a
  primitive, an array, a plain object (its own properties in insertion order) or
  an instance of one of the wrapper classes.  Numbers are IEEE doubles: the finite
  ones are real numbers, and comparisons with \<open>NaN\<close> are false.
\<close>

datatype jsnum = Fin real | PosInf | NegInf | NaN

fun num_less :: "jsnum \<Rightarrow> jsnum \<Rightarrow> bool" where
  "num_less NaN _ = False"
| "num_less _ NaN = False"
| "num_less (Fin a) (Fin b) = (a < b)"
| "num_less (Fin a) PosInf = True"
| "num_less (Fin a) NegInf = False"
| "num_less PosInf _ = False"
| "num_less NegInf (Fin b) = True"
| "num_less NegInf PosInf = True"
| "num_less NegInf NegInf = False"

text \<open>
  The engine's attribute descriptor, as far as this layer reads it: the local name,
  the name of the value type and the coordinate reference system of a geometry
  attribute.  A \<open>Field\<close> wrapper holds one descriptor in \<open>_field\<close>.
\<close>

record descriptor =
  d_name :: string
  d_type :: string
  d_crs :: "string option"

text \<open>The engine's expressions, held by an \<open>Expression\<close> wrapper in \<open>_expression\<close>.\<close>

datatype gt_expr = GtLiteralNum jsnum | GtLiteralStr string | GtParsed string

datatype jsval =
    JUndefined
  | JNull
  | JBool bool
  | JNum jsnum
  | JStr string
  | JArr "jsval list"
  | JObj "(string \<times> jsval) list"
  | JField descriptor
  | JExpression gt_expr
  | JFill nat
  | JStroke nat

datatype js_error = Error string | TypeError

fun truthy :: "jsval \<Rightarrow> bool" where
  "truthy JUndefined = False"
| "truthy JNull = False"
| "truthy (JBool b) = b"
| "truthy (JNum (Fin r)) = (r \<noteq> 0)"
| "truthy (JNum NaN) = False"
| "truthy (JNum _) = True"
| "truthy (JStr s) = (s \<noteq> [])"
| "truthy _ = True"

fun typeof :: "jsval \<Rightarrow> string" where
  "typeof JUndefined = ''undefined''"
| "typeof (JBool _) = ''boolean''"
| "typeof (JNum _) = ''number''"
| "typeof (JStr _) = ''string''"
| "typeof _ = ''object''"

fun is_Array :: "jsval \<Rightarrow> bool" where
  "is_Array (JArr _) = True"
| "is_Array _ = False"

text \<open>
  Reading a property of a value that is neither \<open>undefined\<close> nor \<open>null\<close>.  A plain
  object answers with its own property, a \<open>Field\<close> wrapper answers \<open>name\<close>
  from its descriptor (as \<open>Schema#fieldNames\<close> reads \<open>getLocalName\<close>), and the
  data properties asked for in this layer (\<open>fields\<close>, \<open>name\<close>, \<open>forEach\<close>)
  are absent from every other kind of value.
\<close>

fun get_prop :: "jsval \<Rightarrow> string \<Rightarrow> jsval" where
  "get_prop (JObj kvs) k = (case map_of kvs k of None \<Rightarrow> JUndefined | Some v \<Rightarrow> v)"
| "get_prop (JField d) k = (if k = ''name'' then JStr (d_name d) else JUndefined)"
| "get_prop _ k = JUndefined"

text \<open>Reading a property of \<open>undefined\<close> or \<open>null\<close> throws.\<close>

fun prop_of :: "jsval \<Rightarrow> string \<Rightarrow> js_error + jsval" where
  "prop_of JUndefined k = Inl TypeError"
| "prop_of JNull k = Inl TypeError"
| "prop_of v k = Inr (get_prop v k)"

text \<open>
  \<open>v.forEach\<close> is truthy: every array inherits the method; a plain object has it
  only as an own property.
\<close>

fun has_forEach :: "jsval \<Rightarrow> bool" where
  "has_forEach (JArr _) = True"
| "has_forEach (JObj kvs) = truthy (get_prop (JObj kvs) ''forEach'')"
| "has_forEach _ = False"

section \<open>Collaborators outside the source\<close>

text \<open>
  \<open>schema.js\<close> and the \<open>Shape\<close> symbolizer call into modules of the repository
  that are not part of the source at hand.  They are parameters of the model:
  \<^item> \<open>UTIL_apply t s\<close>: the properties of the target object after \<open>UTIL.apply(t, s)\<close>,
    which returns its target;
  \<^item> \<open>Field_new c\<close>: the descriptor held by \<open>new Field(c)\<close>, or the error it throws;
  \<^item> \<open>Field_config d\<close>: the \<open>config\<close> of the \<open>Field\<close> wrapping \<open>d\<close>;
  \<^item> \<open>GEOM_has t\<close>: whether \<open>GEOM[t]\<close> is truthy;
  \<^item> \<open>Field_toString d\<close>, \<open>Expression_toString e\<close>, \<open>Fill_toString f\<close>,
    \<open>Stroke_toString s\<close>: the string that a wrapper instance converts to;
  \<^item> \<open>Expression_new c\<close>, \<open>Fill_new c\<close>, \<open>Stroke_new c\<close>: the engine handle held by
    the wrapper built from \<open>c\<close>, or the error thrown;
  \<^item> \<open>Expression_config e\<close>, \<open>Fill_config f\<close>, \<open>Stroke_config s\<close>: the \<open>config\<close> of
    the wrapper around an engine handle.
\<close>

record collab =
  UTIL_apply :: "(string \<times> jsval) list \<Rightarrow> jsval \<Rightarrow> (string \<times> jsval) list"
  Field_new :: "jsval \<Rightarrow> js_error + descriptor"
  Field_config :: "descriptor \<Rightarrow> jsval"
  GEOM_has :: "string \<Rightarrow> bool"
  Field_toString :: "descriptor \<Rightarrow> string"
  Expression_toString :: "gt_expr \<Rightarrow> string"
  Fill_toString :: "nat \<Rightarrow> string"
  Stroke_toString :: "nat \<Rightarrow> string"
  Expression_new :: "jsval \<Rightarrow> js_error + gt_expr"
  Fill_new :: "jsval \<Rightarrow> js_error + nat"
  Stroke_new :: "jsval \<Rightarrow> js_error + nat"
  Expression_config :: "gt_expr \<Rightarrow> jsval"
  Fill_config :: "nat \<Rightarrow> jsval"
  Stroke_config :: "nat \<Rightarrow> jsval"

text \<open>
  A finite number stands for the double nearest to it (ties to the even mantissa), and
  prints as \<open>Number.prototype.toString\<close> prints that double (ECMAScript 9.8.1): with the
  fewest significant digits \<open>s\<close> whose value \<open>0.s \<times> 10\<^sup>n\<close> reads back as the same double,
  in plain notation for \<open>-6 < n \<le> 21\<close> and in exponent notation otherwise.
\<close>

function dec :: "int \<Rightarrow> string" where
  "dec n = (if n < 10 then [''0123456789'' ! nat n]
            else dec (n div 10) @ [''0123456789'' ! nat (n mod 10)])"
  by pat_completeness auto
termination
  by (relation "measure nat") auto

definition pow2 :: "int \<Rightarrow> real" where
  "pow2 e = (if 0 \<le> e then 2 ^ nat e else 1 / 2 ^ nat (- e))"

definition pow10 :: "int \<Rightarrow> real" where
  "pow10 e = (if 0 \<le> e then 10 ^ nat e else 1 / 10 ^ nat (- e))"

definition round_half_even :: "real \<Rightarrow> int" where
  "round_half_even q =
     (let f = \<lfloor>q\<rfloor>
      in if q - of_int f < 1 / 2 then f
         else if 1 / 2 < q - of_int f then f + 1
         else if even f then f else f + 1)"

text \<open>The double nearest to a non-negative number: 53 bits, exponents down to \<open>-1074\<close>.\<close>

definition to_double :: "real \<Rightarrow> real" where
  "to_double a =
     (let e = (case find (\<lambda>e. pow2 e \<le> a \<and> a < pow2 (e + 1))
                      (map (\<lambda>i. int i - 1100) [0..<2200]) of
                 None \<Rightarrow> - 1074
               | Some e \<Rightarrow> max (e - 52) (- 1074))
      in of_int (round_half_even (a / pow2 e)) * pow2 e)"

text \<open>
  The digits and the decimal exponent of a positive double: for the least number of
  digits \<open>k\<close> that admits one, the \<open>k\<close>-digit decimal nearest to the double among
  those that read back as it.
\<close>

definition digits_with :: "real \<Rightarrow> int \<Rightarrow> nat \<Rightarrow> (int \<times> int) option" where
  "digits_with d n k =
     (let u = pow10 (n - int k);
          lo = \<lfloor>d / u\<rfloor>;
          ok = filter (\<lambda>c. to_double (of_int c * u) = d) [lo, lo + 1]
      in case ok of
           [] \<Rightarrow> None
         | [c] \<Rightarrow> Some (if c = 10 ^ k then (10 ^ (k - 1), n + 1) else (c, n))
         | c # c' # _ \<Rightarrow>
             (let b = (if \<bar>of_int c' * u - d\<bar> < \<bar>of_int c * u - d\<bar> then c' else c)
              in Some (if b = 10 ^ k then (10 ^ (k - 1), n + 1) else (b, n))))"

definition shortest_digits :: "real \<Rightarrow> (int \<times> int) option" where
  "shortest_digits d =
     (case find (\<lambda>n. pow10 (n - 1) \<le> d \<and> d < pow10 n) (map (\<lambda>i. int i - 330) [0..<650]) of
        None \<Rightarrow> None
      | Some n \<Rightarrow>
          (case List.map_filter (digits_with d n) [1..<18] of
             [] \<Rightarrow> None
           | sn # _ \<Rightarrow> Some sn))"

definition format_digits :: "int \<Rightarrow> int \<Rightarrow> string" where
  "format_digits s n =
     (let ds = dec s; k = int (length ds)
      in if k \<le> n \<and> n \<le> 21 then ds @ replicate (nat (n - k)) CHR ''0''
         else if 0 < n \<and> n \<le> 21 then take (nat n) ds @ ''.'' @ drop (nat n) ds
         else if - 6 < n \<and> n \<le> 0 then ''0.'' @ replicate (nat (- n)) CHR ''0'' @ ds
         else (if k = 1 then ds else hd ds # ''.'' @ tl ds) @
              ''e'' @ (if 0 \<le> n - 1 then ''+'' else ''-'') @ dec \<bar>n - 1\<bar>)"

fun num_to_string :: "jsnum \<Rightarrow> string" where
  "num_to_string NaN = ''NaN''"
| "num_to_string PosInf = ''Infinity''"
| "num_to_string NegInf = ''-Infinity''"
| "num_to_string (Fin r) =
     (let d = to_double \<bar>r\<bar>; sign = (if r < 0 then ''-'' else [])
      in if d = 0 then ''0''
         else if pow2 1024 \<le> d then sign @ ''Infinity''
         else (case shortest_digits d of
                 None \<Rightarrow> sign @ ''Infinity''
               | Some (s, n) \<Rightarrow> sign @ format_digits s n))"

text \<open>\<open>Array.prototype.join\<close> with a comma, stopping at the first element that throws.\<close>

fun join_strings :: "(js_error + string) list \<Rightarrow> js_error + string" where
  "join_strings [] = Inr []"
| "join_strings [x] = x"
| "join_strings (x # y # ys) =
     (case x of
        Inl e \<Rightarrow> Inl e
      | Inr s \<Rightarrow> (case join_strings (y # ys) of Inl e \<Rightarrow> Inl e | Inr t \<Rightarrow> Inr (s @ '','' @ t)))"

text \<open>
  The conversion of a value to a string, as the \<open>in\<close> operator applies it to a key and
  the call of a Java constructor to its string argument.  An array joins the strings of
  its elements (nothing for \<open>undefined\<close> and \<open>null\<close>); a plain object answers with the
  inherited \<open>toString\<close>, and throws when it has an own property of that name, which no
  value can make callable; the text of a wrapper instance is the collaborators' to give.
\<close>

fun to_string :: "collab \<Rightarrow> jsval \<Rightarrow> js_error + string" where
  "to_string env (JStr s) = Inr s"
| "to_string env JUndefined = Inr ''undefined''"
| "to_string env JNull = Inr ''null''"
| "to_string env (JBool b) = Inr (if b then ''true'' else ''false'')"
| "to_string env (JNum x) = Inr (num_to_string x)"
| "to_string env (JArr xs) =
     join_strings (map (\<lambda>x. if x = JUndefined \<or> x = JNull then Inr [] else to_string env x) xs)"
| "to_string env (JObj kvs) =
     (if map_of kvs ''toString'' = None then Inr ''[object Object]'' else Inl TypeError)"
| "to_string env (JField d) = Inr (Field_toString env d)"
| "to_string env (JExpression e) = Inr (Expression_toString env e)"
| "to_string env (JFill f) = Inr (Fill_toString env f)"
| "to_string env (JStroke f) = Inr (Stroke_toString env f)"

section \<open>The feature-type builder of the engine\<close>

text \<open>
  \<open>SimpleFeatureTypeBuilder\<close> collects a name, a coordinate reference system and
  the descriptors added to it; \<open>buildFeatureType\<close> yields a feature type with that
  name and those descriptors in the order of addition.  Every call to the engine is
  recorded in \<open>calls\<close>.
\<close>

datatype engine_call =
    NewBuilder | SetName string | SetCRS string | Add descriptor | BuildFeatureType

record feature_type =
  ft_name :: string
  ft_attrs :: "descriptor list"

record gt =
  calls :: "engine_call list"
  b_name :: string
  b_crs :: "string option"
  b_attrs :: "descriptor list"

definition gt_newBuilder :: "gt \<Rightarrow> gt" where
  "gt_newBuilder g = g\<lparr>calls := calls g @ [NewBuilder], b_name := [], b_crs := None, b_attrs := []\<rparr>"

definition gt_setName :: "string \<Rightarrow> gt \<Rightarrow> gt" where
  "gt_setName n g = g\<lparr>calls := calls g @ [SetName n], b_name := n\<rparr>"

definition gt_setCRS :: "string \<Rightarrow> gt \<Rightarrow> gt" where
  "gt_setCRS p g = g\<lparr>calls := calls g @ [SetCRS p], b_crs := Some p\<rparr>"

definition gt_add :: "descriptor \<Rightarrow> gt \<Rightarrow> gt" where
  "gt_add d g = g\<lparr>calls := calls g @ [Add d], b_attrs := b_attrs g @ [d]\<rparr>"

definition gt_buildFeatureType :: "gt \<Rightarrow> gt \<times> feature_type" where
  "gt_buildFeatureType g =
     (g\<lparr>calls := calls g @ [BuildFeatureType]\<rparr>, \<lparr>ft_name = b_name g, ft_attrs = b_attrs g\<rparr>)"

section \<open>schema.js\<close>

definition prepConfig :: "collab \<Rightarrow> jsval \<Rightarrow> jsval" where
  "prepConfig env config =
     (if is_Array config then JObj [(''fields'', config)]
      else JObj (UTIL_apply env [] config))"

text \<open>A \<open>Schema\<close> holds the engine's feature type in \<open>_schema\<close>, once constructed.\<close>

record schema =
  schema_handle :: "feature_type option"

text \<open>
  The body of the \<open>forEach\<close> callback of the constructor: a value that is not a
  \<open>Field\<close> is replaced by \<open>new Field(value)\<close>; the projection of a geometry field
  becomes the builder's CRS; the field's descriptor is added.
\<close>

definition field_descriptor :: "collab \<Rightarrow> jsval \<Rightarrow> js_error + descriptor" where
  "field_descriptor env field = (case field of JField d \<Rightarrow> Inr d | _ \<Rightarrow> Field_new env field)"

definition add_field :: "collab \<Rightarrow> jsval \<Rightarrow> gt \<Rightarrow> gt \<times> js_error option" where
  "add_field env field g =
     (case field_descriptor env field of
        Inl e \<Rightarrow> (g, Some e)
      | Inr d \<Rightarrow>
          (let g1 = (if GEOM_has env (d_type d)
                     then (case d_crs d of Some p \<Rightarrow> gt_setCRS p g | None \<Rightarrow> g)
                     else g)
           in (gt_add d g1, None)))"

fun add_fields :: "collab \<Rightarrow> jsval list \<Rightarrow> gt \<Rightarrow> gt \<times> js_error option" where
  "add_fields env [] g = (g, None)"
| "add_fields env (f # fs) g =
     (case add_field env f g of
        (g', Some e) \<Rightarrow> (g', Some e)
      | (g', None) \<Rightarrow> add_fields env fs g')"

definition Schema_constructor :: "collab \<Rightarrow> jsval \<Rightarrow> gt \<Rightarrow> gt \<times> (js_error + schema)" where
  "Schema_constructor env config0 g =
     (if truthy config0 then
        (let config = prepConfig env config0;
             flds = get_prop config ''fields''
         in if \<not> truthy flds \<or> \<not> has_forEach flds
            then (g, Inl (Error ''Construct schema with a fields array.''))
            else
              (let name = get_prop config ''name'';
                   g0 = gt_newBuilder g
               in case to_string env (if truthy name then name else JStr ''feature'') of
                    Inl e \<Rightarrow> (g0, Inl e)
                  | Inr n \<Rightarrow>
                      (let g1 = gt_setName n g0
                       in case flds of
                            JArr fs \<Rightarrow>
                              (case add_fields env fs g1 of
                                 (g2, Some e) \<Rightarrow> (g2, Inl e)
                               | (g2, None) \<Rightarrow>
                                   (let (g3, ft) = gt_buildFeatureType g2
                                    in (g3, Inr \<lparr>schema_handle = Some ft\<rparr>)))
                          | _ \<Rightarrow> (g1, Inl TypeError))))
      else (g, Inr \<lparr>schema_handle = None\<rparr>))"

definition Schema_name :: "schema \<Rightarrow> js_error + string" where
  "Schema_name s = (case schema_handle s of None \<Rightarrow> Inl TypeError | Some ft \<Rightarrow> Inr (ft_name ft))"

definition Schema_fields :: "schema \<Rightarrow> js_error + descriptor list" where
  "Schema_fields s = (case schema_handle s of None \<Rightarrow> Inl TypeError | Some ft \<Rightarrow> Inr (ft_attrs ft))"

definition Schema_fieldNames :: "schema \<Rightarrow> js_error + string list" where
  "Schema_fieldNames s =
     (case schema_handle s of None \<Rightarrow> Inl TypeError | Some ft \<Rightarrow> Inr (map d_name (ft_attrs ft)))"

text \<open>The loop of \<open>get\<close>: the first field whose name is strictly equal to the argument.\<close>

fun get_loop :: "descriptor list \<Rightarrow> jsval \<Rightarrow> jsval" where
  "get_loop [] name = JUndefined"
| "get_loop (f # fs) name = (if JStr (d_name f) = name then JField f else get_loop fs name)"

definition Schema_get :: "schema \<Rightarrow> jsval \<Rightarrow> js_error + jsval" where
  "Schema_get s name =
     (case Schema_fields s of Inl e \<Rightarrow> Inl e | Inr flds \<Rightarrow> Inr (get_loop flds name))"

definition Schema_config :: "collab \<Rightarrow> schema \<Rightarrow> js_error + jsval" where
  "Schema_config env s =
     (case Schema_name s of
        Inl e \<Rightarrow> Inl e
      | Inr n \<Rightarrow>
          (case Schema_fields s of
             Inl e \<Rightarrow> Inl e
           | Inr flds \<Rightarrow>
               Inr (JObj [(''type'', JStr ''Schema''), (''name'', JStr n),
                          (''fields'', JArr (map (Field_config env) flds))])))"

definition Schema_from :: "feature_type \<Rightarrow> schema" where
  "Schema_from ft = \<lparr>schema_handle = Some ft\<rparr>"

section \<open>The Shape symbolizer\<close>

text \<open>
  The \<open>Shape\<close> constructor rewrites its argument and hands the result to the
  constructor of \<open>Symbolizer\<close>.  This is the value handed over.
\<close>

definition Shape_constructor_config :: "jsval \<Rightarrow> jsval" where
  "Shape_constructor_config config =
     (if truthy config
      then (if typeof config = ''string'' then JObj [(''name'', config)] else config)
      else config)"

section \<open>An instance of the collaborators\<close>

text \<open>Assigning a property of a plain object: an existing key keeps its place.\<close>

fun put_prop :: "string \<Rightarrow> jsval \<Rightarrow> (string \<times> jsval) list \<Rightarrow> (string \<times> jsval) list" where
  "put_prop k v [] = [(k, v)]"
| "put_prop k v ((k', v') # kvs) = (if k = k' then (k, v) # kvs else (k', v') # put_prop k v kvs)"

text \<open>
  Modelled from the spec: \<open>UTIL.apply\<close> (\<open>lib/geoscript/util.js\<close>) is absent from the
  source.  The normalizer of the spec makes a shallow copy of a mapping: every property
  of the source is assigned to the target, nothing else is touched.
\<close>

definition plain_apply :: "(string \<times> jsval) list \<Rightarrow> jsval \<Rightarrow> (string \<times> jsval) list" where
  "plain_apply target source =
     (case source of JObj kvs \<Rightarrow> fold (\<lambda>(k, v). put_prop k v) kvs target | _ \<Rightarrow> target)"

text \<open>
  Modelled from the spec: \<open>Field\<close> (\<open>lib/geoscript/feature/field.js\<close>) is absent from
  the source.  The source documents a field definition as an object with at least
  \<open>name\<close> and \<open>type\<close>, and \<open>projection\<close> for a geometry; a wrapper's \<open>config\<close> gives
  the current value of each.
\<close>

definition plain_Field_new :: "jsval \<Rightarrow> js_error + descriptor" where
  "plain_Field_new c =
     (case (get_prop c ''name'', get_prop c ''type'') of
        (JStr n, JStr t) \<Rightarrow>
          Inr \<lparr>d_name = n, d_type = t,
               d_crs = (case get_prop c ''projection'' of JStr p \<Rightarrow> Some p | _ \<Rightarrow> None)\<rparr>
      | _ \<Rightarrow> Inl (Error ''Field config must include name and type.''))"

definition plain_Field_config :: "descriptor \<Rightarrow> jsval" where
  "plain_Field_config d =
     JObj ([(''name'', JStr (d_name d)), (''type'', JStr (d_type d))] @
           (case d_crs d of None \<Rightarrow> [] | Some p \<Rightarrow> [(''projection'', JStr p)]))"

text \<open>
  Modelled from the spec: the remaining collaborators (\<open>GEOM\<close>, the texts of the
  wrappers, \<open>Expression\<close>, \<open>Fill\<close>, \<open>Stroke\<close>) are absent from the source; the
  instance fixes one behaviour for each so that the model can be run.
\<close>

definition plain_collab :: collab where
  "plain_collab =
     \<lparr>UTIL_apply = plain_apply,
      Field_new = plain_Field_new,
      Field_config = plain_Field_config,
      GEOM_has = (\<lambda>t. t \<in> set [''Geometry'', ''Point'', ''LineString'', ''Polygon'',
                                  ''MultiPoint'', ''MultiLineString'', ''MultiPolygon'',
                                  ''GeometryCollection'']),
      Field_toString = (\<lambda>d. ''<Field '' @ d_name d @ ''>''),
      Expression_toString = (\<lambda>e. ''<Expression>''),
      Fill_toString = (\<lambda>f. ''<Fill>''),
      Stroke_toString = (\<lambda>f. ''<Stroke>''),
      Expression_new = (\<lambda>c. case c of
                          JObj kvs \<Rightarrow>
                            (case get_prop c ''value'' of
                               JNum x \<Rightarrow> Inr (GtLiteralNum x)
                             | JStr t \<Rightarrow> Inr (GtLiteralStr t)
                             | _ \<Rightarrow>
                                 (case get_prop c ''text'' of
                                    JStr t \<Rightarrow> Inr (GtParsed t)
                                  | _ \<Rightarrow> Inl (Error ''Expression config must include text.'')))
                        | _ \<Rightarrow> Inl (Error ''Expression config must include text.'')),
      Fill_new = (\<lambda>c. Inr 0),
      Stroke_new = (\<lambda>c. Inr 0),
      Expression_config = (\<lambda>e. case e of
                             GtLiteralNum x \<Rightarrow> JObj [(''type'', JStr ''Expression''), (''value'', JNum x)]
                           | GtLiteralStr t \<Rightarrow> JObj [(''type'', JStr ''Expression''), (''value'', JStr t)]
                           | GtParsed t \<Rightarrow> JObj [(''type'', JStr ''Expression''), (''text'', JStr t)]),
      Fill_config = (\<lambda>f. JObj [(''type'', JStr ''Fill'')]),
      Stroke_config = (\<lambda>f. JObj [(''type'', JStr ''Stroke'')])\<rparr>"

definition gt0 :: gt where
  "gt0 = \<lparr>calls = [], b_name = [], b_crs = None, b_attrs = []\<rparr>"

text \<open>The law of a shallow copy: the copy of a plain object has the object's properties.\<close>

definition copies_properties :: "collab \<Rightarrow> bool" where
  "copies_properties env \<longleftrightarrow>
     (\<forall>kvs k. distinct (map fst kvs) \<longrightarrow> map_of (UTIL_apply env [] (JObj kvs)) k = map_of kvs k)"

text \<open>A configuration without a \<open>name\<close> key: an array of fields, or a plain object
  (each key once) that has no such key.\<close>

definition omits_name :: "jsval \<Rightarrow> bool" where
  "omits_name c =
     (case c of
        JArr fs \<Rightarrow> True
      | JObj kvs \<Rightarrow> distinct (map fst kvs) \<and> map_of kvs ''name'' = None
      | _ \<Rightarrow> False)"

section \<open>Schema#clone\<close>

text \<open>
  The names every plain object inherits from \<open>Object.prototype\<close>, which the \<open>in\<close>
  operator finds in an object literal that has no own property of that name: those of
  ECMAScript 15.2.4, and the accessor helpers and \<open>toSource\<close> that Rhino, the engine
  the source runs on (it reads \<open>Packages\<close>), adds to them.
\<close>

definition Object_prototype_props :: "string list" where
  "Object_prototype_props =
     [''constructor'', ''toString'', ''toLocaleString'', ''valueOf'',
      ''hasOwnProperty'', ''propertyIsEnumerable'', ''isPrototypeOf'', ''toSource'',
      ''__defineGetter__'', ''__defineSetter__'', ''__lookupGetter__'', ''__lookupSetter__'']"

text \<open>\<open>key in obj\<close> for a plain object with the given own keys.\<close>

definition in_object :: "string list \<Rightarrow> string \<Rightarrow> bool" where
  "in_object own k \<longleftrightarrow> k \<in> set own \<or> k \<in> set Object_prototype_props"

text \<open>The inner \<open>for\<close> loop: the first provided field whose name is strictly equal
  to the name of the existing field.\<close>

fun find_override :: "string \<Rightarrow> jsval list \<Rightarrow> js_error + jsval option" where
  "find_override n [] = Inr None"
| "find_override n (cf # cfs) =
     (case prop_of cf ''name'' of
        Inl e \<Rightarrow> Inl e
      | Inr v \<Rightarrow> if JStr n = v then Inr (Some cf) else find_override n cfs)"

text \<open>The first \<open>forEach\<close>: over the existing fields, with the accumulated \<open>fields\<close>
  array and the keys of \<open>existing\<close>.\<close>

fun clone_existing ::
  "descriptor list \<Rightarrow> jsval list \<Rightarrow> jsval list \<times> string list \<Rightarrow> js_error + jsval list \<times> string list"
where
  "clone_existing [] cfs acc = Inr acc"
| "clone_existing (f # fs) cfs (flds, existing) =
     (case find_override (d_name f) cfs of
        Inl e \<Rightarrow> Inl e
      | Inr r \<Rightarrow>
          clone_existing fs cfs
            (flds @ [case r of Some cf \<Rightarrow> cf | None \<Rightarrow> JField f], existing @ [d_name f]))"

text \<open>The second \<open>forEach\<close>: over the provided fields.\<close>

fun clone_new :: "collab \<Rightarrow> jsval list \<Rightarrow> string list \<Rightarrow> jsval list \<Rightarrow> js_error + jsval list" where
  "clone_new env [] existing flds = Inr flds"
| "clone_new env (cf # cfs) existing flds =
     (case prop_of cf ''name'' of
        Inl e \<Rightarrow> Inl e
      | Inr v \<Rightarrow>
          (case to_string env v of
             Inl e \<Rightarrow> Inl e
           | Inr k \<Rightarrow>
               clone_new env cfs existing
                 (if in_object existing k then flds else flds @ [cf])))"

text \<open>
  \<open>clone\<close>.  A truthy \<open>config.fields\<close> that is not an array has no \<open>forEach\<close>
  method to call (values carry no functions), so the call throws a \<open>TypeError\<close>,
  as does reading \<open>this.fields\<close> of an uninitialized shell.
\<close>

definition Schema_clone :: "collab \<Rightarrow> schema \<Rightarrow> jsval \<Rightarrow> gt \<Rightarrow> gt \<times> (js_error + schema)" where
  "Schema_clone env s config g =
     (let configFields =
            (if truthy config \<and> truthy (get_prop config ''fields'')
             then get_prop config ''fields'' else JArr [])
      in case Schema_fields s of
           Inl e \<Rightarrow> (g, Inl e)
         | Inr existing_fields \<Rightarrow>
             (case configFields of
                JArr cfs \<Rightarrow>
                  (case clone_existing existing_fields cfs ([], []) of
                     Inl e \<Rightarrow> (g, Inl e)
                   | Inr (flds, existing) \<Rightarrow>
                       (case clone_new env cfs existing flds of
                          Inl e \<Rightarrow> (g, Inl e)
                        | Inr merged \<Rightarrow>
                            (case (if truthy config \<and> truthy (get_prop config ''name'')
                                   then Inr (get_prop config ''name'')
                                   else (case Schema_name s of
                                           Inl e \<Rightarrow> Inl e | Inr n \<Rightarrow> Inr (JStr n))) of
                               Inl e \<Rightarrow> (g, Inl e)
                             | Inr nm \<Rightarrow>
                                 Schema_constructor env
                                   (JObj [(''name'', nm), (''fields'', JArr merged)]) g)))
              | _ \<Rightarrow> (g, Inl TypeError)))"

section \<open>The schema factory and the registry\<close>

text \<open>The \<open>handles\<close> predicate of the factory that \<open>schema.js\<close> registers.\<close>

definition Schema_handles :: "collab \<Rightarrow> jsval \<Rightarrow> bool" where
  "Schema_handles env config = is_Array (get_prop (prepConfig env config) ''fields'')"

text \<open>
  Modelled from the spec: \<open>Factory\<close>, \<open>register\<close> and \<open>create\<close>
  (\<open>lib/geoscript/factory.js\<close>, \<open>lib/geoscript/feature/util.js\<close>) are absent from the
  source.  A factory entry pairs a wrapper type with a predicate; the registry is the
  list of entries in registration order; \<open>register\<close> appends; \<open>create\<close> canonicalizes
  the configuration, scans the entries in registration order and constructs the type of
  the first entry whose predicate holds, failing when there is none.  The registry is
  handed back, since \<open>create\<close> is a call on shared state.
\<close>

record 'w factory =
  f_type :: string
  f_handles :: "jsval \<Rightarrow> bool"
  f_new :: "jsval \<Rightarrow> 'w"

datatype registry_error = NoMatchingFactory

definition register :: "'w factory list \<Rightarrow> 'w factory \<Rightarrow> 'w factory list" where
  "register registry entry = registry @ [entry]"

fun scan :: "'w factory list \<Rightarrow> jsval \<Rightarrow> 'w factory option" where
  "scan [] config = None"
| "scan (entry # entries) config =
     (if f_handles entry config then Some entry else scan entries config)"

definition create ::
  "(jsval \<Rightarrow> jsval) \<Rightarrow> 'w factory list \<Rightarrow> jsval \<Rightarrow> 'w factory list \<times> (registry_error + string \<times> 'w)"
where
  "create canon registry config0 =
     (let config = canon config0
      in case scan registry config of
           None \<Rightarrow> (registry, Inl NoMatchingFactory)
         | Some entry \<Rightarrow> (registry, Inr (f_type entry, f_new entry config)))"

text \<open>A sequence of \<open>create\<close> calls, each on the registry the previous one left.\<close>

fun create_all ::
  "(jsval \<Rightarrow> jsval) \<Rightarrow> 'w factory list \<Rightarrow> jsval list \<Rightarrow> 'w factory list \<times> (registry_error + string \<times> 'w) list"
where
  "create_all canon registry [] = (registry, [])"
| "create_all canon registry (c # cs) =
     (case create canon registry c of
        (registry1, x) \<Rightarrow>
          (case create_all canon registry1 cs of
             (registry2, xs) \<Rightarrow> (registry2, x # xs)))"

text \<open>
  The merge as the specification words it: each existing field is replaced in place by
  the first provided field of the same name and kept otherwise; the provided fields
  whose name is no existing field's name follow, in their order.
\<close>

definition merge_by_name :: "descriptor list \<Rightarrow> jsval list \<Rightarrow> jsval list" where
  "merge_by_name existing_fields cfs =
     map (\<lambda>f. case find (\<lambda>cf. get_prop cf ''name'' = JStr (d_name f)) cfs of
                 Some cf \<Rightarrow> cf | None \<Rightarrow> JField f) existing_fields @
     filter (\<lambda>cf. get_prop cf ''name'' \<notin> JStr ` d_name ` set existing_fields) cfs"

text \<open>The entry that \<open>schema.js\<close> registers: the \<open>Schema\<close> type with its predicate.\<close>

definition Schema_factory :: "collab \<Rightarrow> gt \<Rightarrow> (gt \<times> (js_error + schema)) factory" where
  "Schema_factory env g =
     \<lparr>f_type = ''Schema'', f_handles = Schema_handles env,
      f_new = (\<lambda>config. Schema_constructor env config g)\<rparr>"

text \<open>An entry whose predicate accepts every configuration, to exercise the dispatcher.\<close>

definition catch_all_factory :: "(gt \<times> (js_error + schema)) factory" where
  "catch_all_factory =
     \<lparr>f_type = ''Any'', f_handles = (\<lambda>config. True),
      f_new = (\<lambda>config. (gt0, Inr \<lparr>schema_handle = None\<rparr>))\<rparr>"

section \<open>Objects in a store\<close>

text \<open>
  Whether normalization touches the caller's object depends on object identity, so here
  objects live in a store: an address is an index, allocation appends, and a value is a
  primitive or a reference.
\<close>

datatype hval = VUndefined | VNull | VBool bool | VNum jsnum | VStr string | VRef nat

datatype hobj = OObject "(string \<times> hval) list" | OArray "hval list"

type_synonym heap = "hobj list"

fun put_hprop :: "string \<Rightarrow> hval \<Rightarrow> (string \<times> hval) list \<Rightarrow> (string \<times> hval) list" where
  "put_hprop k v [] = [(k, v)]"
| "put_hprop k v ((k', v') # kvs) = (if k = k' then (k, v) # kvs else (k', v') # put_hprop k v kvs)"

definition alloc :: "heap \<Rightarrow> hobj \<Rightarrow> heap \<times> nat" where
  "alloc h ob = (h @ [ob], length h)"

text \<open>\<open>target[name] = value\<close> on the plain object at address \<open>target\<close>.\<close>

definition set_property :: "nat \<Rightarrow> string \<Rightarrow> hval \<Rightarrow> heap \<Rightarrow> heap" where
  "set_property target k v h =
     (if target < length h
      then (case h ! target of
              OObject props \<Rightarrow> h[target := OObject (put_hprop k v props)]
            | OArray xs \<Rightarrow> h)
      else h)"

text \<open>
  Modelled from the spec: \<open>UTIL.apply\<close> (\<open>lib/geoscript/util.js\<close>) is absent from the
  source.  Applied to a fresh target and a mapping it produces the shallow copy of the
  spec's normalizer: each property of the source is assigned to the target; a source that
  is not a plain object has no properties to assign.
\<close>

definition UTIL_apply_heap :: "nat \<Rightarrow> hval \<Rightarrow> heap \<Rightarrow> heap" where
  "UTIL_apply_heap target source h =
     (case source of
        VRef a \<Rightarrow>
          (if a < length h
           then (case h ! a of
                   OObject props \<Rightarrow> fold (\<lambda>(k, v). set_property target k v) props h
                 | OArray xs \<Rightarrow> h)
           else h)
      | _ \<Rightarrow> h)"

fun is_Array_heap :: "heap \<Rightarrow> hval \<Rightarrow> bool" where
  "is_Array_heap h (VRef a) = (a < length h \<and> (case h ! a of OArray xs \<Rightarrow> True | _ \<Rightarrow> False))"
| "is_Array_heap h _ = False"

text \<open>\<open>prepConfig\<close> on the store: the object literals allocate.\<close>

definition prepConfig_heap :: "hval \<Rightarrow> heap \<Rightarrow> heap \<times> hval" where
  "prepConfig_heap config h =
     (if is_Array_heap h config
      then (case alloc h (OObject [(''fields'', config)]) of (h1, b) \<Rightarrow> (h1, VRef b))
      else (case alloc h (OObject []) of (h1, b) \<Rightarrow> (UTIL_apply_heap b config h1, VRef b)))"

text \<open>Any later defaulting or merging on the result: a sequence of assignments to it.\<close>

definition assign_all :: "nat \<Rightarrow> (string \<times> hval) list \<Rightarrow> heap \<Rightarrow> heap" where
  "assign_all target kvs h = fold (\<lambda>(k, v). set_property target k v) kvs h"

section \<open>The Shape symbolizer: cache, accessors, setters\<close>

text \<open>
  The engine's point symbolizer, as far as \<open>Shape\<close> reads and writes it through
  \<open>SLD.mark\<close> and \<open>SLD.graphic\<close>: the mark's well-known name, size, fill and stroke,
  and the graphic's opacity and rotation.  A new symbolizer has the defaults the source
  documents (square, size 6, opacity 1).
\<close>

record pointsym =
  ps_name :: gt_expr
  ps_size :: gt_expr
  ps_opacity :: gt_expr
  ps_rotation :: gt_expr
  ps_fill :: nat
  ps_stroke :: nat

definition default_pointsym :: pointsym where
  "default_pointsym =
     \<lparr>ps_name = GtLiteralStr ''square'', ps_size = GtLiteralNum (Fin 6),
      ps_opacity = GtLiteralNum (Fin 1), ps_rotation = GtLiteralNum (Fin 0),
      ps_fill = 0, ps_stroke = 0\<rparr>"

text \<open>
  A \<open>Shape\<close> with the engine it writes to: the wrapper's \<open>cache\<close> object, from handle
  names to handles, and the engine's symbolizers, a handle being the index of the object.
\<close>

record shape =
  cache :: "string \<rightharpoonup> nat"
  symbolizers :: "pointsym list"

definition createPointSymbolizer :: "shape \<Rightarrow> nat \<times> shape" where
  "createPointSymbolizer w =
     (length (symbolizers w), w\<lparr>symbolizers := symbolizers w @ [default_pointsym]\<rparr>)"

text \<open>The setter and the getter of \<open>_symbolizer\<close>.\<close>

definition Shape_set_symbolizer :: "nat \<Rightarrow> shape \<Rightarrow> shape" where
  "Shape_set_symbolizer h w = w\<lparr>cache := (cache w)(''_symbolizer'' \<mapsto> h)\<rparr>"

definition Shape_symbolizer :: "shape \<Rightarrow> nat option \<times> shape" where
  "Shape_symbolizer w =
     (let w1 = (if cache w ''_symbolizer'' = None
                then (case createPointSymbolizer w of (h, w0) \<Rightarrow> Shape_set_symbolizer h w0)
                else w)
      in (cache w1 ''_symbolizer'', w1))"

text \<open>
  \<open>this._mark\<close> and \<open>this._graphic\<close> read \<open>this._symbolizer\<close> and hand it to the
  engine; a setter of the engine then changes the symbolizer, a getter reads it.
\<close>

definition write_symbolizer :: "(pointsym \<Rightarrow> pointsym) \<Rightarrow> shape \<Rightarrow> shape" where
  "write_symbolizer f w =
     (case Shape_symbolizer w of
        (Some h, w1) \<Rightarrow> w1\<lparr>symbolizers := (symbolizers w1)[h := f (symbolizers w1 ! h)]\<rparr>
      | (None, w1) \<Rightarrow> w1)"

definition read_symbolizer :: "(pointsym \<Rightarrow> 'a) \<Rightarrow> shape \<Rightarrow> 'a option \<times> shape" where
  "read_symbolizer f w =
     (case Shape_symbolizer w of
        (Some h, w1) \<Rightarrow>
          (if h < length (symbolizers w1) then Some (f (symbolizers w1 ! h)) else None, w1)
      | (None, w1) \<Rightarrow> (None, w1))"

definition Shape_set_name :: "collab \<Rightarrow> jsval \<Rightarrow> shape \<Rightarrow> js_error + shape" where
  "Shape_set_name env expression w =
     (case (case expression of
              JStr t \<Rightarrow> Inr (GtLiteralStr t)
            | JExpression e \<Rightarrow> Inr e
            | _ \<Rightarrow> Expression_new env expression) of
        Inl err \<Rightarrow> Inl err
      | Inr e \<Rightarrow> Inr (write_symbolizer (\<lambda>p. p\<lparr>ps_name := e\<rparr>) w))"

definition Shape_set_size :: "collab \<Rightarrow> jsval \<Rightarrow> shape \<Rightarrow> js_error + shape" where
  "Shape_set_size env expression w =
     (case (case expression of
              JExpression e \<Rightarrow> Inr e
            | _ \<Rightarrow> Expression_new env expression) of
        Inl err \<Rightarrow> Inl err
      | Inr e \<Rightarrow> Inr (write_symbolizer (\<lambda>p. p\<lparr>ps_size := e\<rparr>) w))"

definition Shape_set_opacity :: "collab \<Rightarrow> jsval \<Rightarrow> shape \<Rightarrow> js_error + shape" where
  "Shape_set_opacity env expression w =
     (case (case expression of
              JNum x \<Rightarrow>
                (if num_less x (Fin 0) \<or> num_less (Fin 1) x
                 then Inl (Error ''Opacity must be a number between 0 and 1 (inclusive)'')
                 else Inr (GtLiteralNum x))
            | _ \<Rightarrow>
                (if typeof expression \<noteq> ''object''
                 then Inl (Error (''Shape opacity cannot be type: '' @ typeof expression))
                 else (case expression of
                         JExpression e \<Rightarrow> Inr e
                       | _ \<Rightarrow>
                           (case Expression_new env expression of
                              Inl err \<Rightarrow> Inl (Error ''Shape opacity must be a number or an expression'')
                            | Inr e \<Rightarrow> Inr e)))) of
        Inl err \<Rightarrow> Inl err
      | Inr e \<Rightarrow> Inr (write_symbolizer (\<lambda>p. p\<lparr>ps_opacity := e\<rparr>) w))"

definition Shape_set_rotation :: "collab \<Rightarrow> jsval \<Rightarrow> shape \<Rightarrow> js_error + shape" where
  "Shape_set_rotation env expression w =
     (case (case expression of
              JNum x \<Rightarrow> Inr (GtLiteralNum x)
            | _ \<Rightarrow>
                (if typeof expression \<noteq> ''object''
                 then Inl (Error (''Shape rotation cannot be type: '' @ typeof expression))
                 else (case expression of
                         JExpression e \<Rightarrow> Inr e
                       | _ \<Rightarrow>
                           (case Expression_new env expression of
                              Inl err \<Rightarrow> Inl (Error ''Shape rotation must be a number or an expression'')
                            | Inr e \<Rightarrow> Inr e)))) of
        Inl err \<Rightarrow> Inl err
      | Inr e \<Rightarrow> Inr (write_symbolizer (\<lambda>p. p\<lparr>ps_rotation := e\<rparr>) w))"

definition Shape_set_fill :: "collab \<Rightarrow> jsval \<Rightarrow> shape \<Rightarrow> js_error + shape" where
  "Shape_set_fill env fill w =
     (case (case fill of JFill f \<Rightarrow> Inr f | _ \<Rightarrow> Fill_new env fill) of
        Inl err \<Rightarrow> Inl err
      | Inr f \<Rightarrow> Inr (write_symbolizer (\<lambda>p. p\<lparr>ps_fill := f\<rparr>) w))"

definition Shape_set_stroke :: "collab \<Rightarrow> jsval \<Rightarrow> shape \<Rightarrow> js_error + shape" where
  "Shape_set_stroke env stroke w =
     (case (case stroke of JStroke f \<Rightarrow> Inr f | _ \<Rightarrow> Stroke_new env stroke) of
        Inl err \<Rightarrow> Inl err
      | Inr f \<Rightarrow> Inr (write_symbolizer (\<lambda>p. p\<lparr>ps_stroke := f\<rparr>) w))"

definition Shape_name :: "shape \<Rightarrow> gt_expr option \<times> shape" where
  "Shape_name = read_symbolizer ps_name"

definition Shape_size :: "shape \<Rightarrow> gt_expr option \<times> shape" where
  "Shape_size = read_symbolizer ps_size"

definition Shape_opacity :: "shape \<Rightarrow> gt_expr option \<times> shape" where
  "Shape_opacity = read_symbolizer ps_opacity"

definition Shape_rotation :: "shape \<Rightarrow> gt_expr option \<times> shape" where
  "Shape_rotation = read_symbolizer ps_rotation"

definition Shape_fill :: "shape \<Rightarrow> nat option \<times> shape" where
  "Shape_fill = read_symbolizer ps_fill"

definition Shape_stroke :: "shape \<Rightarrow> nat option \<times> shape" where
  "Shape_stroke = read_symbolizer ps_stroke"

text \<open>\<open>config\<close>: the type discriminator and the \<open>config\<close> of each property, read in turn.\<close>

definition Shape_config :: "collab \<Rightarrow> shape \<Rightarrow> jsval option \<times> shape" where
  "Shape_config env w =
     (case Shape_name w of (n, w1) \<Rightarrow>
      case Shape_size w1 of (s, w2) \<Rightarrow>
      case Shape_opacity w2 of (opa, w3) \<Rightarrow>
      case Shape_rotation w3 of (r, w4) \<Rightarrow>
      case Shape_fill w4 of (f, w5) \<Rightarrow>
      case Shape_stroke w5 of (st, w6) \<Rightarrow>
        (case (n, s, opa, r, f, st) of
           (Some n1, Some s1, Some o1, Some r1, Some f1, Some st1) \<Rightarrow>
             Some (JObj [(''type'', JStr ''Shape''),
                         (''name'', Expression_config env n1),
                         (''size'', Expression_config env s1),
                         (''opacity'', Expression_config env o1),
                         (''rotation'', Expression_config env r1),
                         (''fill'', Fill_config env f1),
                         (''stroke'', Stroke_config env st1)])
         | _ \<Rightarrow> None,
         w6))"

text \<open>
  The accessors and setters that \<open>Shape\<close> offers to its callers, and their effect on
  the wrapper and the engine; a setter that throws leaves both as they were.
\<close>

datatype shape_op =
    Read_symbolizer | Read_mark | Read_graphic
  | Get_name | Get_size | Get_opacity | Get_rotation | Get_fill | Get_stroke | Get_config
  | Set_name jsval | Set_size jsval | Set_opacity jsval | Set_rotation jsval
  | Set_fill jsval | Set_stroke jsval

definition keep_on_error :: "shape \<Rightarrow> js_error + shape \<Rightarrow> shape" where
  "keep_on_error w r = (case r of Inl err \<Rightarrow> w | Inr w1 \<Rightarrow> w1)"

fun run_op :: "collab \<Rightarrow> shape_op \<Rightarrow> shape \<Rightarrow> shape" where
  "run_op env (Set_name v) w = keep_on_error w (Shape_set_name env v w)"
| "run_op env (Set_size v) w = keep_on_error w (Shape_set_size env v w)"
| "run_op env (Set_opacity v) w = keep_on_error w (Shape_set_opacity env v w)"
| "run_op env (Set_rotation v) w = keep_on_error w (Shape_set_rotation env v w)"
| "run_op env (Set_fill v) w = keep_on_error w (Shape_set_fill env v w)"
| "run_op env (Set_stroke v) w = keep_on_error w (Shape_set_stroke env v w)"
| "run_op env Get_config w = snd (Shape_config env w)"
| "run_op env _ w = snd (Shape_symbolizer w)"

definition run_ops :: "collab \<Rightarrow> shape_op list \<Rightarrow> shape \<Rightarrow> shape" where
  "run_ops env ops w = fold (run_op env) ops w"

text \<open>A cached symbolizer handle refers to a symbolizer of the engine.\<close>

definition shape_ok :: "shape \<Rightarrow> bool" where
  "shape_ok w \<longleftrightarrow>
     (case cache w ''_symbolizer'' of None \<Rightarrow> True | Some h \<Rightarrow> h < length (symbolizers w))"

text \<open>A \<open>Shape\<close> before any access: an empty cache, and an engine without symbolizers.\<close>

definition shape0 :: shape where
  "shape0 = \<lparr>cache = Map.empty, symbolizers = []\<rparr>"

section \<open>Laws asked of the collaborators, and valid configurations\<close>

text \<open>
  The round trip of the nested wrapper: the \<open>config\<close> of a \<open>Field\<close> is accepted by
  the schema constructor's callback, and the field it yields has that same \<open>config\<close>.
\<close>

definition Field_roundtrip :: "collab \<Rightarrow> bool" where
  "Field_roundtrip env \<longleftrightarrow>
     (\<forall>d. \<exists>d'. field_descriptor env (Field_config env d) = Inr d' \<and>
               Field_config env d' = Field_config env d)"

text \<open>
  A valid schema configuration is truthy and its \<open>name\<close>, when it has a truthy one, is
  a string.
\<close>

definition valid_config :: "collab \<Rightarrow> jsval \<Rightarrow> bool" where
  "valid_config env C \<longleftrightarrow>
     truthy C \<and>
     (case get_prop (prepConfig env C) ''name'' of JStr n \<Rightarrow> True | v \<Rightarrow> \<not> truthy v)"

text \<open>The name a valid configuration gives its schema: its own, or \<open>feature\<close> when it
  has none or an empty one.\<close>

definition config_name :: "collab \<Rightarrow> jsval \<Rightarrow> string" where
  "config_name env C =
     (case get_prop (prepConfig env C) ''name'' of
        JStr n \<Rightarrow> if n = [] then ''feature'' else n
      | _ \<Rightarrow> ''feature'')"

section \<open>Constructing a Shape\<close>

text \<open>
  Modelled from the spec: the constructor of \<open>Symbolizer\<close> (\<open>style/symbolizer.js\<close>), to
  which the \<open>Shape\<close> constructor hands its configuration, is absent from the source.
  A wrapper is built from a configuration by giving it an empty cache and writing each
  property of the configuration through the wrapper's setter of that name; a property
  that has no setter, such as the type discriminator, changes nothing an accessor reads.
\<close>

fun assign_property :: "collab \<Rightarrow> string \<times> jsval \<Rightarrow> shape \<Rightarrow> js_error + shape" where
  "assign_property env (k, v) w =
     (if k = ''name'' then Shape_set_name env v w
      else if k = ''size'' then Shape_set_size env v w
      else if k = ''opacity'' then Shape_set_opacity env v w
      else if k = ''rotation'' then Shape_set_rotation env v w
      else if k = ''fill'' then Shape_set_fill env v w
      else if k = ''stroke'' then Shape_set_stroke env v w
      else Inr w)"

fun assign_properties :: "collab \<Rightarrow> (string \<times> jsval) list \<Rightarrow> shape \<Rightarrow> js_error + shape" where
  "assign_properties env [] w = Inr w"
| "assign_properties env (kv # kvs) w =
     (case assign_property env kv w of
        Inl err \<Rightarrow> Inl err
      | Inr w1 \<Rightarrow> assign_properties env kvs w1)"

definition Symbolizer_constructor :: "collab \<Rightarrow> jsval \<Rightarrow> shape \<Rightarrow> js_error + shape" where
  "Symbolizer_constructor env config w =
     (case config of
        JObj kvs \<Rightarrow> assign_properties env kvs (w\<lparr>cache := Map.empty\<rparr>)
      | _ \<Rightarrow> Inr (w\<lparr>cache := Map.empty\<rparr>))"

text \<open>The \<open>Shape\<close> constructor, on the engine of \<open>w\<close>.\<close>

definition Shape_constructor :: "collab \<Rightarrow> jsval \<Rightarrow> shape \<Rightarrow> js_error + shape" where
  "Shape_constructor env config w =
     Symbolizer_constructor env (Shape_constructor_config config) w"

text \<open>
  The round trip of the wrappers nested in a \<open>Shape\<close>: the \<open>config\<close> of an expression,
  a fill or a stroke is a plain mapping from which the wrapper's constructor builds a
  wrapper with that same \<open>config\<close>.
\<close>

definition Expression_roundtrip :: "collab \<Rightarrow> bool" where
  "Expression_roundtrip env \<longleftrightarrow>
     (\<forall>e. \<exists>kvs e'. Expression_config env e = JObj kvs \<and>
                   Expression_new env (JObj kvs) = Inr e' \<and>
                   Expression_config env e' = JObj kvs)"

definition Fill_roundtrip :: "collab \<Rightarrow> bool" where
  "Fill_roundtrip env \<longleftrightarrow>
     (\<forall>f. \<exists>kvs f'. Fill_config env f = JObj kvs \<and>
                   Fill_new env (JObj kvs) = Inr f' \<and>
                   Fill_config env f' = JObj kvs)"

definition Stroke_roundtrip :: "collab \<Rightarrow> bool" where
  "Stroke_roundtrip env \<longleftrightarrow>
     (\<forall>f. \<exists>kvs f'. Stroke_config env f = JObj kvs \<and>
                   Stroke_new env (JObj kvs) = Inr f' \<and>
                   Stroke_config env f' = JObj kvs)"

section \<open>Properties of the schema wrapper\<close>

lemma map_of_put_prop:
  "map_of (put_prop k v kvs) k' = (if k' = k then Some v else map_of kvs k')"
  by (induction kvs) auto

lemma map_of_fold_put_prop:
  "distinct (map fst kvs) \<Longrightarrow>
   map_of (fold (\<lambda>(k, v). put_prop k v) kvs t) k =
     (case map_of kvs k of Some v \<Rightarrow> Some v | None \<Rightarrow> map_of t k)"
proof (induction kvs arbitrary: t)
  case Nil
  show ?case by simp
next
  case (Cons kv kvs)
  obtain k0 v0 where kv: "kv = (k0, v0)" by (cases kv)
  from Cons.prems kv have d: "distinct (map fst kvs)" and nin: "k0 \<notin> fst ` set kvs"
    by auto
  from nin have "map_of kvs k0 = None"
    by (simp add: map_of_eq_None_iff)
  with Cons.IH [OF d, of "put_prop k0 v0 t"] kv show ?case
    by (auto simp: map_of_put_prop split: option.splits)
qed

lemma plain_collab_copies: "copies_properties plain_collab"
  by (simp add: copies_properties_def plain_collab_def plain_apply_def map_of_fold_put_prop
      split: option.splits)

lemma get_loop_find:
  "get_loop fs (JStr n) =
     (case find (\<lambda>d. d_name d = n) fs of None \<Rightarrow> JUndefined | Some d \<Rightarrow> JField d)"
  by (induction fs) auto

lemma get_loop_undefined:
  "get_loop fs (JStr n) = JUndefined \<longleftrightarrow> (\<forall>d \<in> set fs. d_name d \<noteq> n)"
  by (induction fs) auto

text \<open>
  C10.  On a constructed schema, \<open>get(name)\<close> with a string does not throw; it returns
  \<open>undefined\<close> exactly when no field has that name, and otherwise the field at the
  least index whose name is the string.
\<close>

theorem Schema_get_first_match:
  assumes "schema_handle s = Some ft"
  shows "\<exists>r. Schema_get s (JStr n) = Inr r \<and>
           (r = JUndefined \<longleftrightarrow> (\<forall>d \<in> set (ft_attrs ft). d_name d \<noteq> n)) \<and>
           (\<forall>i. i < length (ft_attrs ft) \<longrightarrow> d_name (ft_attrs ft ! i) = n \<longrightarrow>
                (\<forall>j < i. d_name (ft_attrs ft ! j) \<noteq> n) \<longrightarrow> r = JField (ft_attrs ft ! i))"
proof -
  let ?fs = "ft_attrs ft"
  let ?r = "get_loop ?fs (JStr n)"
  have run: "Schema_get s (JStr n) = Inr ?r"
    using assms by (simp add: Schema_get_def Schema_fields_def)
  have none: "?r = JUndefined \<longleftrightarrow> (\<forall>d \<in> set ?fs. d_name d \<noteq> n)"
    by (rule get_loop_undefined)
  have first: "?r = JField (?fs ! i)"
    if "i < length ?fs" "d_name (?fs ! i) = n" "\<forall>j < i. d_name (?fs ! j) \<noteq> n" for i
  proof -
    from that have "find (\<lambda>d. d_name d = n) ?fs = Some (?fs ! i)"
      by (auto simp: find_Some_iff)
    then show ?thesis by (simp add: get_loop_find)
  qed
  from run none first show ?thesis by blast
qed

theorem Schema_get_first_match_witness:
  "Schema_get (Schema_from \<lparr>ft_name = ''cities'', ft_attrs =
       [\<lparr>d_name = ''the_geom'', d_type = ''Point'', d_crs = None\<rparr>,
        \<lparr>d_name = ''name'', d_type = ''String'', d_crs = None\<rparr>,
        \<lparr>d_name = ''name'', d_type = ''Integer'', d_crs = None\<rparr>]\<rparr>) (JStr ''name'')
     = Inr (JField \<lparr>d_name = ''name'', d_type = ''String'', d_crs = None\<rparr>)
   \<and> Schema_get (Schema_from \<lparr>ft_name = ''cities'', ft_attrs =
       [\<lparr>d_name = ''the_geom'', d_type = ''Point'', d_crs = None\<rparr>]\<rparr>) (JStr ''pop'')
     = Inr JUndefined"
proof -
  let ?a = "\<lparr>d_name = ''the_geom'', d_type = ''Point'', d_crs = None\<rparr>"
  let ?b = "\<lparr>d_name = ''name'', d_type = ''String'', d_crs = None\<rparr>"
  let ?c = "\<lparr>d_name = ''name'', d_type = ''Integer'', d_crs = None\<rparr>"
  let ?ft = "\<lparr>ft_name = ''cities'', ft_attrs = [?a, ?b, ?c]\<rparr>"
  let ?ft1 = "\<lparr>ft_name = ''cities'', ft_attrs = [?a]\<rparr>"
  have h: "schema_handle (Schema_from ?ft) = Some ?ft"
    by (simp add: Schema_from_def)
  have h1: "schema_handle (Schema_from ?ft1) = Some ?ft1"
    by (simp add: Schema_from_def)
  from Schema_get_first_match [OF h, of "''name''"]
  obtain r where r: "Schema_get (Schema_from ?ft) (JStr ''name'') = Inr r"
    and first: "\<forall>i. i < length (ft_attrs ?ft) \<longrightarrow> d_name (ft_attrs ?ft ! i) = ''name'' \<longrightarrow>
                (\<forall>j < i. d_name (ft_attrs ?ft ! j) \<noteq> ''name'') \<longrightarrow> r = JField (ft_attrs ?ft ! i)"
    by blast
  from first [rule_format, of 1] have "r = JField ?b" by simp
  with r have one: "Schema_get (Schema_from ?ft) (JStr ''name'') = Inr (JField ?b)" by simp
  from Schema_get_first_match [OF h1, of "''pop''"]
  obtain r1 where r1: "Schema_get (Schema_from ?ft1) (JStr ''pop'') = Inr r1"
    and none: "r1 = JUndefined \<longleftrightarrow> (\<forall>d \<in> set (ft_attrs ?ft1). d_name d \<noteq> ''pop'')"
    by blast
  from none have "r1 = JUndefined" by simp
  with r1 one show ?thesis by simp
qed

lemma add_field_ok:
  "add_field env f g = (g', None) \<Longrightarrow>
   \<exists>d. field_descriptor env f = Inr d \<and> b_attrs g' = b_attrs g @ [d] \<and> b_name g' = b_name g"
  by (auto simp: add_field_def gt_add_def gt_setCRS_def Let_def
      split: sum.splits option.splits if_splits)

lemma add_field_run:
  "field_descriptor env f = Inr d \<Longrightarrow>
   \<exists>g'. add_field env f g = (g', None) \<and> b_attrs g' = b_attrs g @ [d] \<and> b_name g' = b_name g"
  by (auto simp: add_field_def gt_add_def gt_setCRS_def Let_def split: option.splits)

lemma add_fields_ok:
  "add_fields env fs g = (g', None) \<Longrightarrow>
   \<exists>ds. map (field_descriptor env) fs = map Inr ds \<and>
        b_attrs g' = b_attrs g @ ds \<and> b_name g' = b_name g"
proof (induction fs arbitrary: g)
  case Nil
  then show ?case by simp
next
  case (Cons f fs)
  from Cons.prems obtain g1 where
    step: "add_field env f g = (g1, None)" and rest: "add_fields env fs g1 = (g', None)"
    by (auto split: prod.splits option.splits)
  from add_field_ok [OF step] obtain d where
    d: "field_descriptor env f = Inr d" "b_attrs g1 = b_attrs g @ [d]" "b_name g1 = b_name g"
    by blast
  from Cons.IH [OF rest] obtain ds where
    ds: "map (field_descriptor env) fs = map Inr ds" "b_attrs g' = b_attrs g1 @ ds"
        "b_name g' = b_name g1"
    by blast
  from d ds have
    "map (field_descriptor env) (f # fs) = map Inr (d # ds) \<and>
     b_attrs g' = b_attrs g @ (d # ds) \<and> b_name g' = b_name g"
    by simp
  then show ?case by blast
qed

lemma add_fields_run:
  "map (field_descriptor env) fs = map Inr ds \<Longrightarrow>
   \<exists>g'. add_fields env fs g = (g', None) \<and> b_attrs g' = b_attrs g @ ds \<and> b_name g' = b_name g"
proof (induction fs arbitrary: g ds)
  case Nil
  then show ?case by simp
next
  case (Cons f fs)
  from Cons.prems obtain d ds' where
    ds: "ds = d # ds'" "field_descriptor env f = Inr d"
        "map (field_descriptor env) fs = map Inr ds'"
    by (cases ds) auto
  from add_field_run [OF ds(2), of g] obtain g1 where
    g1: "add_field env f g = (g1, None)" "b_attrs g1 = b_attrs g @ [d]" "b_name g1 = b_name g"
    by blast
  from Cons.IH [OF ds(3), of g1] obtain g' where
    g': "add_fields env fs g1 = (g', None)" "b_attrs g' = b_attrs g1 @ ds'"
        "b_name g' = b_name g1"
    by blast
  from g1 g' ds(1) have
    "add_fields env (f # fs) g = (g', None) \<and> b_attrs g' = b_attrs g @ ds \<and>
     b_name g' = b_name g"
    by simp
  then show ?case by blast
qed

text \<open>What a successful construction from a truthy configuration has done.\<close>

lemma Schema_constructor_ok:
  assumes "Schema_constructor env c g = (g', Inr s)" and "truthy c"
  shows "\<exists>fs ds n. get_prop (prepConfig env c) ''fields'' = JArr fs \<and>
           map (field_descriptor env) fs = map Inr ds \<and>
           to_string env (if truthy (get_prop (prepConfig env c) ''name'')
                          then get_prop (prepConfig env c) ''name'' else JStr ''feature'') = Inr n \<and>
           s = \<lparr>schema_handle = Some \<lparr>ft_name = n, ft_attrs = ds\<rparr>\<rparr>"
proof -
  let ?cfg = "prepConfig env c"
  let ?arg = "if truthy (get_prop ?cfg ''name'') then get_prop ?cfg ''name'' else JStr ''feature''"
  from assms obtain n where n: "to_string env ?arg = Inr n"
    by (auto simp: Schema_constructor_def Let_def split: if_splits sum.splits)
  let ?g1 = "gt_setName n (gt_newBuilder g)"
  from assms n obtain fs where fs: "get_prop ?cfg ''fields'' = JArr fs"
    by (auto simp: Schema_constructor_def Let_def split: if_splits jsval.splits)
  with assms n obtain g2 where
    run: "add_fields env fs ?g1 = (g2, None)" and
    s: "s = \<lparr>schema_handle = Some \<lparr>ft_name = b_name g2, ft_attrs = b_attrs g2\<rparr>\<rparr>"
    by (auto simp: Schema_constructor_def Let_def gt_buildFeatureType_def
        split: if_splits prod.splits option.splits)
  from add_fields_ok [OF run] obtain ds where
    ds: "map (field_descriptor env) fs = map Inr ds" "b_attrs g2 = b_attrs ?g1 @ ds"
        "b_name g2 = b_name ?g1"
    by blast
  have "b_attrs ?g1 = []" "b_name ?g1 = n"
    by (simp_all add: gt_setName_def gt_newBuilder_def)
  with fs ds s n show ?thesis by auto
qed

lemma Schema_constructor_run:
  assumes "truthy c" and "get_prop (prepConfig env c) ''fields'' = JArr fs"
    and "map (field_descriptor env) fs = map Inr ds"
    and "to_string env (if truthy (get_prop (prepConfig env c) ''name'')
                        then get_prop (prepConfig env c) ''name'' else JStr ''feature'') = Inr n"
  shows "\<exists>g'. Schema_constructor env c g =
           (g', Inr \<lparr>schema_handle = Some \<lparr>ft_name = n, ft_attrs = ds\<rparr>\<rparr>)"
proof -
  let ?g1 = "gt_setName n (gt_newBuilder g)"
  from add_fields_run [OF assms(3), of ?g1] obtain g2 where
    g2: "add_fields env fs ?g1 = (g2, None)" "b_attrs g2 = b_attrs ?g1 @ ds"
        "b_name g2 = b_name ?g1"
    by blast
  have "b_attrs ?g1 = []" "b_name ?g1 = n"
    by (simp_all add: gt_setName_def gt_newBuilder_def)
  with g2 assms(1,2,4) show ?thesis
    by (simp add: Schema_constructor_def Let_def gt_buildFeatureType_def)
qed

lemma omits_name_prepConfig:
  assumes "copies_properties env" and "omits_name c"
  shows "get_prop (prepConfig env c) ''name'' = JUndefined"
proof (cases c)
  case (JArr fs)
  then show ?thesis by (simp add: prepConfig_def)
next
  case (JObj kvs)
  with assms(2) have "distinct (map fst kvs)" "map_of kvs ''name'' = None"
    by (simp_all add: omits_name_def)
  with assms(1) have "map_of (UTIL_apply env [] (JObj kvs)) ''name'' = None"
    by (simp add: copies_properties_def)
  with JObj show ?thesis by (simp add: prepConfig_def)
qed (use assms(2) in \<open>simp_all add: omits_name_def\<close>)

text \<open>
  C9.  A schema constructed from a configuration without a \<open>name\<close> key (whose
  construction succeeds) answers \<open>name\<close> with the string \<open>feature\<close>.
\<close>

theorem Schema_default_name:
  assumes "copies_properties env" and "omits_name c"
    and "Schema_constructor env c g = (g', Inr s)"
  shows "Schema_name s = Inr ''feature''"
proof -
  from assms(2) have t: "truthy c"
    by (cases c) (simp_all add: omits_name_def)
  from omits_name_prepConfig [OF assms(1,2)]
  have n: "get_prop (prepConfig env c) ''name'' = JUndefined" .
  from Schema_constructor_ok [OF assms(3) t] n obtain ds where
    "s = \<lparr>schema_handle = Some \<lparr>ft_name = ''feature'', ft_attrs = ds\<rparr>\<rparr>"
    by auto
  then show ?thesis by (simp add: Schema_name_def)
qed

theorem Schema_default_name_witness:
  "copies_properties plain_collab \<and>
   omits_name (JObj [(''fields'', JArr [JObj [(''name'', JStr ''the_geom''), (''type'', JStr ''Point'')]])]) \<and>
   (case Schema_constructor plain_collab
           (JObj [(''fields'', JArr [JObj [(''name'', JStr ''the_geom''), (''type'', JStr ''Point'')]])])
           gt0 of
      (g', Inr s) \<Rightarrow> Schema_name s = Inr ''feature''
    | (g', Inl e) \<Rightarrow> False)"
proof -
  let ?f = "JObj [(''name'', JStr ''the_geom''), (''type'', JStr ''Point'')]"
  let ?c = "JObj [(''fields'', JArr [?f])]"
  let ?d = "\<lparr>d_name = ''the_geom'', d_type = ''Point'', d_crs = None\<rparr>"
  have om: "omits_name ?c" by (simp add: omits_name_def)
  have t: "truthy ?c" by simp
  have fs: "get_prop (prepConfig plain_collab ?c) ''fields'' = JArr [?f]"
    by (simp add: prepConfig_def plain_collab_def plain_apply_def)
  have ds: "map (field_descriptor plain_collab) [?f] = map Inr [?d]"
    by (simp add: field_descriptor_def plain_collab_def plain_Field_new_def)
  have nm: "to_string plain_collab
              (if truthy (get_prop (prepConfig plain_collab ?c) ''name'')
               then get_prop (prepConfig plain_collab ?c) ''name'' else JStr ''feature'') =
            Inr ''feature''"
    by (simp add: prepConfig_def plain_collab_def plain_apply_def)
  from Schema_constructor_run [OF t fs ds nm, of gt0] obtain g' s where
    run: "Schema_constructor plain_collab ?c gt0 = (g', Inr s)"
    by blast
  from Schema_default_name [OF plain_collab_copies om run]
  have "Schema_name s = Inr ''feature''" .
  with run om plain_collab_copies show ?thesis by simp
qed

text \<open>
  C4.  A truthy configuration whose normalized form has no truthy \<open>fields\<close> value, or
  one without \<open>forEach\<close>, makes the constructor throw its configuration error, and the
  engine is handed back as it was: no builder was made and no builder method called.
\<close>

theorem Schema_constructor_fails_fast:
  assumes "truthy c"
    and "\<not> truthy (get_prop (prepConfig env c) ''fields'') \<or>
         \<not> has_forEach (get_prop (prepConfig env c) ''fields'')"
  shows "Schema_constructor env c g = (g, Inl (Error ''Construct schema with a fields array.''))"
  using assms by (auto simp: Schema_constructor_def Let_def)

theorem Schema_constructor_fails_fast_witness:
  "truthy (JObj [(''name'', JStr ''cities'')]) \<and>
   \<not> truthy (get_prop (prepConfig plain_collab (JObj [(''name'', JStr ''cities'')])) ''fields'') \<and>
   Schema_constructor plain_collab (JObj [(''name'', JStr ''cities'')]) gt0 =
     (gt0, Inl (Error ''Construct schema with a fields array.'')) \<and>
   calls gt0 = []"
proof -
  let ?c = "JObj [(''name'', JStr ''cities'')]"
  have t: "truthy ?c" by simp
  have nf: "\<not> truthy (get_prop (prepConfig plain_collab ?c) ''fields'')"
    by (simp add: prepConfig_def plain_collab_def plain_apply_def)
  then have h: "\<not> truthy (get_prop (prepConfig plain_collab ?c) ''fields'') \<or>
         \<not> has_forEach (get_prop (prepConfig plain_collab ?c) ''fields'')"
    by blast
  from Schema_constructor_fails_fast [OF t h, of gt0] nf show ?thesis
    by (simp add: gt0_def)
qed

text \<open>
  The empty string is a configuration whose normalized form has no \<open>fields\<close>, yet the
  constructor does not throw: a falsy argument yields the uninitialized shell.
\<close>

theorem Schema_constructor_falsy_counterexample:
  "\<not> truthy (get_prop (prepConfig plain_collab (JStr '''')) ''fields'') \<and>
   Schema_constructor plain_collab (JStr '''') gt0 = (gt0, Inr \<lparr>schema_handle = None\<rparr>)"
  by (simp add: Schema_constructor_def prepConfig_def plain_collab_def plain_apply_def)

text \<open>
  C6.  \<open>prepConfig\<close> wraps every array as the \<open>fields\<close> of a new object, and the
  \<open>Shape\<close> constructor wraps every non-empty string as the \<open>name\<close> of a new object.
\<close>

theorem normalize_array_and_string:
  "prepConfig env (JArr xs) = JObj [(''fields'', JArr xs)] \<and>
   (str \<noteq> [] \<longrightarrow> Shape_constructor_config (JStr str) = JObj [(''name'', JStr str)])"
  by (simp add: prepConfig_def Shape_constructor_config_def)

theorem normalize_array_and_string_witness:
  "prepConfig plain_collab (JArr [JStr ''a'']) = JObj [(''fields'', JArr [JStr ''a''])] \<and>
   ''circle'' \<noteq> [] \<and>
   Shape_constructor_config (JStr ''circle'') = JObj [(''name'', JStr ''circle'')]"
  using normalize_array_and_string [of plain_collab "[JStr ''a'']" "''circle''"] by simp

text \<open>The empty string is a primitive string that the \<open>Shape\<close> constructor leaves as it is.\<close>

theorem normalize_empty_string_counterexample:
  "Shape_constructor_config (JStr '''') = JStr '''' \<and>
   Shape_constructor_config (JStr '''') \<noteq> JObj [(''name'', JStr '''')]"
  by (simp add: Shape_constructor_config_def)

section \<open>Properties of clone\<close>

lemma prop_of_ok: "v \<noteq> JUndefined \<Longrightarrow> v \<noteq> JNull \<Longrightarrow> prop_of v k = Inr (get_prop v k)"
  by (cases v) simp_all

lemma find_override_find:
  assumes "\<forall>cf \<in> set cfs. cf \<noteq> JUndefined \<and> cf \<noteq> JNull"
  shows "find_override n cfs = Inr (find (\<lambda>cf. get_prop cf ''name'' = JStr n) cfs)"
  using assms by (induction cfs) (auto simp: prop_of_ok)

lemma clone_existing_map:
  assumes "\<forall>cf \<in> set cfs. cf \<noteq> JUndefined \<and> cf \<noteq> JNull"
  shows "clone_existing fs cfs (acc, ex) =
           Inr (acc @ map (\<lambda>f. case find (\<lambda>cf. get_prop cf ''name'' = JStr (d_name f)) cfs of
                                  Some cf \<Rightarrow> cf | None \<Rightarrow> JField f) fs,
                ex @ map d_name fs)"
  using assms by (induction fs arbitrary: acc ex) (simp_all add: find_override_find)

lemma clone_new_filter:
  assumes "\<forall>cf \<in> set cfs. cf \<noteq> JUndefined \<and> cf \<noteq> JNull \<and>
             (\<exists>n. get_prop cf ''name'' = JStr n \<and> n \<notin> set Object_prototype_props)"
  shows "clone_new env cfs ex acc =
           Inr (acc @ filter (\<lambda>cf. get_prop cf ''name'' \<notin> JStr ` set ex) cfs)"
  using assms
proof (induction cfs arbitrary: acc)
  case Nil
  show ?case by simp
next
  case (Cons cf cfs)
  from Cons.prems obtain n where
    n: "cf \<noteq> JUndefined" "cf \<noteq> JNull" "get_prop cf ''name'' = JStr n"
       "n \<notin> set Object_prototype_props"
    by auto
  from Cons.prems have rest: "\<forall>cf \<in> set cfs. cf \<noteq> JUndefined \<and> cf \<noteq> JNull \<and>
             (\<exists>n. get_prop cf ''name'' = JStr n \<and> n \<notin> set Object_prototype_props)"
    by simp
  from n have "to_string env (get_prop cf ''name'') = Inr n" "in_object ex n \<longleftrightarrow> n \<in> set ex"
    by (simp_all add: in_object_def)
  with n Cons.IH [OF rest] show ?case
    by (auto simp: prop_of_ok)
qed

lemma Schema_clone_merges:
  assumes "schema_handle s = Some ft" and "truthy config"
    and "get_prop config ''fields'' = JArr cfs"
    and "\<forall>cf \<in> set cfs. cf \<noteq> JUndefined \<and> cf \<noteq> JNull \<and>
            (\<exists>n. get_prop cf ''name'' = JStr n \<and> n \<notin> set Object_prototype_props)"
  shows "Schema_clone env s config g =
           Schema_constructor env
             (JObj [(''name'', if truthy (get_prop config ''name'')
                               then get_prop config ''name'' else JStr (ft_name ft)),
                    (''fields'', JArr (merge_by_name (ft_attrs ft) cfs))]) g"
proof -
  from assms(4) have nn: "\<forall>cf \<in> set cfs. cf \<noteq> JUndefined \<and> cf \<noteq> JNull" by blast
  have img: "JStr ` set (map d_name (ft_attrs ft)) = JStr ` d_name ` set (ft_attrs ft)"
    by simp
  show ?thesis
    using assms(1-3)
    by (simp add: Schema_clone_def Schema_fields_def Schema_name_def
        clone_existing_map [OF nn] clone_new_filter [OF assms(4)] merge_by_name_def)
qed

text \<open>
  C2.  The merge of \<open>clone\<close> at an override whose name is a property every object
  inherits: the existing schema has the field \<open>a\<close>, the override has the field
  \<open>constructor\<close>.  Merging by name gives both fields; \<open>clone\<close> gives a schema with
  the field \<open>a\<close> alone, because \<open>"constructor" in existing\<close> holds.
\<close>

theorem Schema_clone_inherited_name_dropped:
  "merge_by_name [\<lparr>d_name = ''a'', d_type = ''String'', d_crs = None\<rparr>]
      [JObj [(''name'', JStr ''constructor''), (''type'', JStr ''String'')]] =
     [JField \<lparr>d_name = ''a'', d_type = ''String'', d_crs = None\<rparr>,
      JObj [(''name'', JStr ''constructor''), (''type'', JStr ''String'')]] \<and>
   snd (Schema_clone plain_collab
          (Schema_from \<lparr>ft_name = ''feature'',
                        ft_attrs = [\<lparr>d_name = ''a'', d_type = ''String'', d_crs = None\<rparr>]\<rparr>)
          (JObj [(''fields'',
                  JArr [JObj [(''name'', JStr ''constructor''), (''type'', JStr ''String'')]])])
          gt0) =
     Inr (Schema_from \<lparr>ft_name = ''feature'',
                       ft_attrs = [\<lparr>d_name = ''a'', d_type = ''String'', d_crs = None\<rparr>]\<rparr>)"
proof -
  have merge: "merge_by_name [\<lparr>d_name = ''a'', d_type = ''String'', d_crs = None\<rparr>]
      [JObj [(''name'', JStr ''constructor''), (''type'', JStr ''String'')]] =
     [JField \<lparr>d_name = ''a'', d_type = ''String'', d_crs = None\<rparr>,
      JObj [(''name'', JStr ''constructor''), (''type'', JStr ''String'')]]"
    by (simp add: merge_by_name_def)
  have run: "snd (Schema_clone plain_collab
          (Schema_from \<lparr>ft_name = ''feature'',
                        ft_attrs = [\<lparr>d_name = ''a'', d_type = ''String'', d_crs = None\<rparr>]\<rparr>)
          (JObj [(''fields'',
                  JArr [JObj [(''name'', JStr ''constructor''), (''type'', JStr ''String'')]])])
          gt0) =
     Inr (Schema_from \<lparr>ft_name = ''feature'',
                       ft_attrs = [\<lparr>d_name = ''a'', d_type = ''String'', d_crs = None\<rparr>]\<rparr>)"
    by (simp add: Schema_clone_def Schema_from_def Schema_fields_def Schema_name_def
        in_object_def Object_prototype_props_def Schema_constructor_def prepConfig_def
        plain_collab_def plain_apply_def Let_def add_field_def field_descriptor_def
        gt_setName_def gt_newBuilder_def gt_add_def gt_buildFeatureType_def gt0_def)
  from merge run show ?thesis by (rule conjI)
qed

text \<open>
  With names that no object inherits, \<open>clone\<close> merges by name: existing fields
  \<open>a, b, c\<close> and provided fields \<open>b, d\<close> give \<open>a, b, c, d\<close> with the provided
  \<open>b\<close> in the place of the existing one.
\<close>

lemma Schema_clone_merges_example:
  "snd (Schema_clone plain_collab
          (Schema_from \<lparr>ft_name = ''feature'',
                        ft_attrs = [\<lparr>d_name = ''a'', d_type = ''String'', d_crs = None\<rparr>,
                                    \<lparr>d_name = ''b'', d_type = ''String'', d_crs = None\<rparr>,
                                    \<lparr>d_name = ''c'', d_type = ''String'', d_crs = None\<rparr>]\<rparr>)
          (JObj [(''fields'',
                  JArr [JObj [(''name'', JStr ''b''), (''type'', JStr ''Integer'')],
                        JObj [(''name'', JStr ''d''), (''type'', JStr ''Double'')]])])
          gt0) =
     Inr (Schema_from \<lparr>ft_name = ''feature'',
                       ft_attrs = [\<lparr>d_name = ''a'', d_type = ''String'', d_crs = None\<rparr>,
                                   \<lparr>d_name = ''b'', d_type = ''Integer'', d_crs = None\<rparr>,
                                   \<lparr>d_name = ''c'', d_type = ''String'', d_crs = None\<rparr>,
                                   \<lparr>d_name = ''d'', d_type = ''Double'', d_crs = None\<rparr>]\<rparr>)"
proof -
  let ?ft = "\<lparr>ft_name = ''feature'',
              ft_attrs = [\<lparr>d_name = ''a'', d_type = ''String'', d_crs = None\<rparr>,
                          \<lparr>d_name = ''b'', d_type = ''String'', d_crs = None\<rparr>,
                          \<lparr>d_name = ''c'', d_type = ''String'', d_crs = None\<rparr>]\<rparr>"
  let ?cfs = "[JObj [(''name'', JStr ''b''), (''type'', JStr ''Integer'')],
               JObj [(''name'', JStr ''d''), (''type'', JStr ''Double'')]]"
  let ?config = "JObj [(''fields'', JArr ?cfs)]"
  have h: "schema_handle (Schema_from ?ft) = Some ?ft" by (simp add: Schema_from_def)
  have t: "truthy ?config" by simp
  have f: "get_prop ?config ''fields'' = JArr ?cfs" by simp
  have ok: "\<forall>cf \<in> set ?cfs. cf \<noteq> JUndefined \<and> cf \<noteq> JNull \<and>
            (\<exists>n. get_prop cf ''name'' = JStr n \<and> n \<notin> set Object_prototype_props)"
    by (simp add: Object_prototype_props_def)
  have m: "merge_by_name (ft_attrs ?ft) ?cfs =
             [JField \<lparr>d_name = ''a'', d_type = ''String'', d_crs = None\<rparr>,
              JObj [(''name'', JStr ''b''), (''type'', JStr ''Integer'')],
              JField \<lparr>d_name = ''c'', d_type = ''String'', d_crs = None\<rparr>,
              JObj [(''name'', JStr ''d''), (''type'', JStr ''Double'')]]"
    by (simp add: merge_by_name_def)
  have "snd (Schema_constructor plain_collab
          (JObj [(''name'', JStr ''feature''),
                 (''fields'', JArr [JField \<lparr>d_name = ''a'', d_type = ''String'', d_crs = None\<rparr>,
              JObj [(''name'', JStr ''b''), (''type'', JStr ''Integer'')],
              JField \<lparr>d_name = ''c'', d_type = ''String'', d_crs = None\<rparr>,
              JObj [(''name'', JStr ''d''), (''type'', JStr ''Double'')]])]) gt0) =
     Inr (Schema_from \<lparr>ft_name = ''feature'',
                       ft_attrs = [\<lparr>d_name = ''a'', d_type = ''String'', d_crs = None\<rparr>,
                                   \<lparr>d_name = ''b'', d_type = ''Integer'', d_crs = None\<rparr>,
                                   \<lparr>d_name = ''c'', d_type = ''String'', d_crs = None\<rparr>,
                                   \<lparr>d_name = ''d'', d_type = ''Double'', d_crs = None\<rparr>]\<rparr>)"
    by (simp add: Schema_from_def Schema_constructor_def prepConfig_def
        plain_collab_def plain_apply_def plain_Field_new_def Let_def add_field_def
        field_descriptor_def gt_setName_def gt_newBuilder_def gt_add_def
        gt_buildFeatureType_def gt0_def)
  with Schema_clone_merges [OF h t f ok, of plain_collab gt0] m show ?thesis
    by simp
qed

section \<open>Properties of the registry\<close>

lemma scan_first:
  "i < length registry \<Longrightarrow> f_handles (registry ! i) c \<Longrightarrow>
   \<forall>j < i. \<not> f_handles (registry ! j) c \<Longrightarrow> scan registry c = Some (registry ! i)"
proof (induction registry arbitrary: i)
  case Nil
  then show ?case by simp
next
  case (Cons e es)
  show ?case
  proof (cases i)
    case 0
    with Cons.prems show ?thesis by simp
  next
    case (Suc k)
    with Cons.prems have "\<not> f_handles e c" by auto
    moreover from Suc Cons.prems have "k < length es" "f_handles (es ! k) c"
      "\<forall>j < k. \<not> f_handles (es ! j) c"
      by auto
    ultimately show ?thesis using Cons.IH [of k] Suc by simp
  qed
qed

lemma create_all_map:
  "create_all canon registry cs = (registry, map (\<lambda>c. snd (create canon registry c)) cs)"
  by (induction cs) (auto simp: create_def Let_def split: option.splits)

text \<open>
  C3.  When the entry at position \<open>i\<close> of the registry handles the canonical
  configuration and no entry registered before it does, \<open>create\<close> constructs the type
  of that entry, whatever later entries handle the configuration too; \<open>create\<close> leaves
  the registry as it was, so the same holds at every call of any sequence of calls.
\<close>

theorem create_first_match_wins:
  assumes "i < length registry" and "f_handles (registry ! i) (canon C)"
    and "\<forall>j < i. \<not> f_handles (registry ! j) (canon C)"
  shows "create canon registry C =
           (registry, Inr (f_type (registry ! i), f_new (registry ! i) (canon C))) \<and>
         (\<forall>cs k. k < length cs \<longrightarrow> cs ! k = C \<longrightarrow>
            fst (create_all canon registry cs) = registry \<and>
            snd (create_all canon registry cs) ! k =
              Inr (f_type (registry ! i), f_new (registry ! i) (canon C)))"
proof -
  from scan_first [OF assms] have
    one: "create canon registry C =
           (registry, Inr (f_type (registry ! i), f_new (registry ! i) (canon C)))"
    by (simp add: create_def)
  then show ?thesis by (simp add: create_all_map)
qed

theorem create_first_match_wins_witness:
  "register (register [] (Schema_factory plain_collab gt0)) catch_all_factory =
     [Schema_factory plain_collab gt0, catch_all_factory] \<and>
   f_handles (Schema_factory plain_collab gt0)
     (prepConfig plain_collab (JObj [(''fields'', JArr [])])) \<and>
   f_handles catch_all_factory (prepConfig plain_collab (JObj [(''fields'', JArr [])])) \<and>
   snd (create (prepConfig plain_collab)
          [Schema_factory plain_collab gt0, catch_all_factory] (JObj [(''fields'', JArr [])])) =
     Inr (''Schema'',
          Schema_constructor plain_collab
            (prepConfig plain_collab (JObj [(''fields'', JArr [])])) gt0) \<and>
   snd (create (prepConfig plain_collab)
          [catch_all_factory, Schema_factory plain_collab gt0] (JObj [(''fields'', JArr [])])) =
     Inr (''Any'', (gt0, Inr \<lparr>schema_handle = None\<rparr>))"
proof -
  let ?C = "JObj [(''fields'', JArr [])]"
  let ?canon = "prepConfig plain_collab"
  let ?S = "Schema_factory plain_collab gt0"
  have reg: "register (register [] ?S) catch_all_factory = [?S, catch_all_factory]"
    by (simp add: register_def)
  have hS: "f_handles ?S (?canon ?C)"
    by (simp add: Schema_factory_def Schema_handles_def prepConfig_def plain_collab_def
        plain_apply_def)
  have hA: "f_handles catch_all_factory (?canon ?C)"
    by (simp add: catch_all_factory_def)
  have one: "snd (create ?canon [?S, catch_all_factory] ?C) =
               Inr (''Schema'', Schema_constructor plain_collab (?canon ?C) gt0)"
    using create_first_match_wins [of 0 "[?S, catch_all_factory]" ?canon ?C] hS
    by (simp add: Schema_factory_def)
  have two: "snd (create ?canon [catch_all_factory, ?S] ?C) =
               Inr (''Any'', (gt0, Inr \<lparr>schema_handle = None\<rparr>))"
    using create_first_match_wins [of 0 "[catch_all_factory, ?S]" ?canon ?C] hA
    by (simp add: catch_all_factory_def)
  from reg hS hA one two show ?thesis by blast
qed

section \<open>Properties of normalization on the store\<close>

lemma length_set_property: "length (set_property b k v h) = length h"
  by (simp add: set_property_def split: hobj.splits)

lemma set_property_other: "a \<noteq> b \<Longrightarrow> set_property b k v h ! a = h ! a"
  by (simp add: set_property_def split: hobj.splits)

lemma length_assign_all: "length (assign_all b kvs h) = length h"
  unfolding assign_all_def
  by (induction kvs arbitrary: h) (auto simp: length_set_property)

lemma assign_all_other: "a \<noteq> b \<Longrightarrow> assign_all b kvs h ! a = h ! a"
  unfolding assign_all_def
  by (induction kvs arbitrary: h) (auto simp: set_property_other)

lemma assign_all_object:
  "b < length h \<Longrightarrow> h ! b = OObject p0 \<Longrightarrow>
   assign_all b kvs h = h[b := OObject (fold (\<lambda>(k, v). put_hprop k v) kvs p0)]"
  unfolding assign_all_def
proof (induction kvs arbitrary: h p0)
  case Nil
  then have "h[b := OObject p0] = h" by (simp add: list_update_same_conv)
  then show ?case by simp
next
  case (Cons kv kvs)
  obtain k v where kv: "kv = (k, v)" by (cases kv)
  let ?h1 = "set_property b k v h"
  from Cons.prems have h1: "?h1 = h[b := OObject (put_hprop k v p0)]"
    by (simp add: set_property_def)
  with Cons.prems have "b < length ?h1" "?h1 ! b = OObject (put_hprop k v p0)"
    by simp_all
  from Cons.IH [OF this] h1 kv show ?case by simp
qed

lemma put_hprop_new: "k \<notin> fst ` set acc \<Longrightarrow> put_hprop k v acc = acc @ [(k, v)]"
  by (induction acc) auto

lemma fold_put_hprop_distinct:
  "distinct (map fst kvs) \<Longrightarrow> fst ` set acc \<inter> fst ` set kvs = {} \<Longrightarrow>
   fold (\<lambda>(k, v). put_hprop k v) kvs acc = acc @ kvs"
proof (induction kvs arbitrary: acc)
  case Nil
  show ?case by simp
next
  case (Cons kv kvs)
  obtain k v where kv: "kv = (k, v)" by (cases kv)
  from Cons.prems kv have new: "k \<notin> fst ` set acc" by auto
  from Cons.prems kv have "distinct (map fst kvs)"
    "fst ` set (acc @ [(k, v)]) \<inter> fst ` set kvs = {}"
    by auto
  from Cons.IH [OF this] kv new show ?case by (simp add: put_hprop_new)
qed

lemma prepConfig_heap_result:
  "\<exists>h'. prepConfig_heap config h = (h', VRef (length h)) \<and> length h' = Suc (length h) \<and>
        (\<forall>a < length h. h' ! a = h ! a)"
proof (cases "is_Array_heap h config")
  case True
  then show ?thesis by (simp add: prepConfig_heap_def alloc_def nth_append)
next
  case False
  let ?h1 = "h @ [OObject []]"
  let ?h' = "UTIL_apply_heap (length h) config ?h1"
  have eq: "?h' = ?h1 \<or> (\<exists>kvs. ?h' = assign_all (length h) kvs ?h1)"
    by (auto simp: UTIL_apply_heap_def assign_all_def split: hval.splits hobj.splits)
  then have "length ?h' = Suc (length h)" "\<forall>a < length h. ?h' ! a = h ! a"
    by (auto simp: length_assign_all assign_all_other nth_append)
  with False show ?thesis by (simp add: prepConfig_heap_def alloc_def)
qed

lemma prepConfig_heap_copy:
  assumes "a < length h" and "h ! a = OObject props" and "distinct (map fst props)"
  shows "fst (prepConfig_heap (VRef a) h) ! length h = OObject props"
proof -
  let ?h1 = "h @ [OObject []]"
  from assms have na: "\<not> is_Array_heap h (VRef a)" by simp
  from assms have "UTIL_apply_heap (length h) (VRef a) ?h1 = assign_all (length h) props ?h1"
    by (simp add: UTIL_apply_heap_def assign_all_def nth_append)
  moreover have "assign_all (length h) props ?h1 =
      ?h1[length h := OObject (fold (\<lambda>(k, v). put_hprop k v) props [])]"
    by (rule assign_all_object) simp_all
  moreover from assms(3) have "fold (\<lambda>(k, v). put_hprop k v) props [] = props"
    using fold_put_hprop_distinct [of props "[]"] by simp
  ultimately have "UTIL_apply_heap (length h) (VRef a) ?h1 ! length h = OObject props"
    by simp
  with na assms(1,2) show ?thesis by (simp add: prepConfig_heap_def alloc_def)
qed

text \<open>
  C7.  \<open>prepConfig\<close> returns a reference to an object allocated by the call, so distinct
  from every object the caller had; every object of the caller is as it was, after the
  call and after any later assignments to the result; and when the input is a plain
  object, the result has exactly its properties, with the same (shared) values.
\<close>

theorem prepConfig_heap_never_mutates:
  "\<exists>h'. prepConfig_heap config h = (h', VRef (length h)) \<and>
     length h' = Suc (length h) \<and>
     (\<forall>a < length h. h' ! a = h ! a \<and> (\<forall>kvs. assign_all (length h) kvs h' ! a = h ! a)) \<and>
     (\<forall>a props. config = VRef a \<longrightarrow> a < length h \<longrightarrow> h ! a = OObject props \<longrightarrow>
        distinct (map fst props) \<longrightarrow> a \<noteq> length h \<and> h' ! length h = OObject props)"
proof -
  from prepConfig_heap_result [of config h] obtain h' where
    h': "prepConfig_heap config h = (h', VRef (length h))" "length h' = Suc (length h)"
        "\<forall>a < length h. h' ! a = h ! a"
    by blast
  have later: "assign_all (length h) kvs h' ! a = h ! a" if "a < length h" for a kvs
    using that h'(3) by (simp add: assign_all_other)
  have copy: "a \<noteq> length h \<and> h' ! length h = OObject props"
    if "config = VRef a" "a < length h" "h ! a = OObject props" "distinct (map fst props)"
    for a props
    using prepConfig_heap_copy [OF that(2-4)] that h'(1) by simp
  from h' later copy show ?thesis by blast
qed

theorem prepConfig_heap_never_mutates_witness:
  "snd (prepConfig_heap (VRef 1)
          [OArray [], OObject [(''name'', VStr ''cities''), (''fields'', VRef 0)]]) = VRef 2 \<and>
   fst (prepConfig_heap (VRef 1)
          [OArray [], OObject [(''name'', VStr ''cities''), (''fields'', VRef 0)]]) ! 2 =
     OObject [(''name'', VStr ''cities''), (''fields'', VRef 0)] \<and>
   assign_all 2 [(''name'', VStr ''towns'')]
     (fst (prepConfig_heap (VRef 1)
          [OArray [], OObject [(''name'', VStr ''cities''), (''fields'', VRef 0)]])) ! 1 =
     OObject [(''name'', VStr ''cities''), (''fields'', VRef 0)]"
proof -
  let ?props = "[(''name'', VStr ''cities''), (''fields'', VRef 0)]"
  let ?h = "[OArray [], OObject ?props]"
  from prepConfig_heap_never_mutates [of "VRef 1" ?h] obtain h' where
    run: "prepConfig_heap (VRef 1) ?h = (h', VRef (length ?h))" and
    frame: "\<forall>a < length ?h. h' ! a = ?h ! a \<and>
              (\<forall>kvs. assign_all (length ?h) kvs h' ! a = ?h ! a)" and
    copy: "\<forall>a props. VRef 1 = VRef a \<longrightarrow> a < length ?h \<longrightarrow> ?h ! a = OObject props \<longrightarrow>
              distinct (map fst props) \<longrightarrow> a \<noteq> length ?h \<and> h' ! length ?h = OObject props"
    by blast
  from copy [rule_format, of 1 ?props] have c: "h' ! 2 = OObject ?props"
    by (simp add: numeral_2_eq_2)
  from frame [rule_format, of 1] have
    f: "assign_all 2 [(''name'', VStr ''towns'')] h' ! 1 = OObject ?props"
    by (simp add: numeral_2_eq_2)
  from run have "length [OArray [], OObject ?props] = 2 \<Longrightarrow>
      snd (prepConfig_heap (VRef 1) [OArray [], OObject ?props]) = VRef 2 \<and>
      fst (prepConfig_heap (VRef 1) [OArray [], OObject ?props]) = h'"
    by simp
  with c f show ?thesis by simp
qed

section \<open>Properties of the Shape symbolizer\<close>

lemma Shape_symbolizer_cached:
  "cache w ''_symbolizer'' = Some h \<Longrightarrow> Shape_symbolizer w = (Some h, w)"
  by (simp add: Shape_symbolizer_def)

lemma Shape_symbolizer_first:
  "cache w ''_symbolizer'' = None \<Longrightarrow>
   Shape_symbolizer w =
     (Some (length (symbolizers w)),
      w\<lparr>cache := (cache w)(''_symbolizer'' \<mapsto> length (symbolizers w)),
        symbolizers := symbolizers w @ [default_pointsym]\<rparr>)"
  by (simp add: Shape_symbolizer_def createPointSymbolizer_def Shape_set_symbolizer_def)

lemma write_symbolizer_cached:
  "cache w ''_symbolizer'' = Some h \<Longrightarrow> cache (write_symbolizer f w) = cache w"
  by (simp add: write_symbolizer_def Shape_symbolizer_cached)

lemma read_symbolizer_cached:
  "cache w ''_symbolizer'' = Some h \<Longrightarrow> snd (read_symbolizer f w) = w"
  by (simp add: read_symbolizer_def Shape_symbolizer_cached)

lemma Shape_config_cached:
  "cache w ''_symbolizer'' = Some h \<Longrightarrow> snd (Shape_config env w) = w"
proof -
  assume c: "cache w ''_symbolizer'' = Some h"
  have r: "read_symbolizer f w = (fst (read_symbolizer f w), w)" for f :: "pointsym \<Rightarrow> 'b"
    using read_symbolizer_cached [OF c, of f] by (metis prod.collapse)
  show ?thesis
    unfolding Shape_config_def Shape_name_def Shape_size_def Shape_opacity_def
      Shape_rotation_def Shape_fill_def Shape_stroke_def
    by (subst r, simp, subst r, simp, subst r, simp, subst r, simp, subst r, simp, subst r, simp)
qed

lemma run_op_cached:
  assumes "cache w ''_symbolizer'' = Some h"
  shows "cache (run_op env op w) ''_symbolizer'' = Some h"
proof (cases op)
  case Get_config
  with assms show ?thesis by (simp add: Shape_config_cached)
qed (use assms in \<open>auto simp: keep_on_error_def Shape_set_name_def Shape_set_size_def
      Shape_set_opacity_def Shape_set_rotation_def Shape_set_fill_def Shape_set_stroke_def
      write_symbolizer_cached Shape_symbolizer_cached split: sum.splits\<close>)

lemma run_ops_cached:
  "cache w ''_symbolizer'' = Some h \<Longrightarrow> cache (run_ops env ops w) ''_symbolizer'' = Some h"
  unfolding run_ops_def
  by (induction ops arbitrary: w) (simp_all add: run_op_cached)
lemma length_write_symbolizer_cached:
  "cache w ''_symbolizer'' = Some h \<Longrightarrow>
   length (symbolizers (write_symbolizer f w)) = length (symbolizers w)"
  by (simp add: write_symbolizer_def Shape_symbolizer_cached)

lemma run_op_length_cached:
  assumes "cache w ''_symbolizer'' = Some h"
  shows "length (symbolizers (run_op env op w)) = length (symbolizers w)"
proof (cases op)
  case Get_config
  with assms show ?thesis by (simp add: Shape_config_cached)
qed (use assms in \<open>auto simp: keep_on_error_def Shape_set_name_def Shape_set_size_def
      Shape_set_opacity_def Shape_set_rotation_def Shape_set_fill_def Shape_set_stroke_def
      length_write_symbolizer_cached Shape_symbolizer_cached split: sum.splits\<close>)

lemma run_ops_length_cached:
  "cache w ''_symbolizer'' = Some h \<Longrightarrow>
   length (symbolizers (run_ops env ops w)) = length (symbolizers w)"
  unfolding run_ops_def
proof (induction ops arbitrary: w)
  case Nil
  show ?case by simp
next
  case (Cons op ops)
  from Cons.prems have "cache (run_op env op w) ''_symbolizer'' = Some h"
    by (rule run_op_cached)
  from Cons.IH [OF this] Cons.prems show ?case
    by (simp add: run_op_length_cached)
qed

text \<open>
  C8.  A read of \<open>_symbolizer\<close> returns a handle that is then in the cache; when the
  cache had none, the read asked the engine for a new symbolizer and stored its handle.
  A second read returns the same handle and changes nothing, and so does a read after
  any sequence of the accessors and setters of \<open>Shape\<close>: the entry stays, and the
  engine is not asked for another symbolizer.
\<close>

theorem Shape_symbolizer_memoized:
  assumes "Shape_symbolizer w = (r, w1)"
  shows "\<exists>h. r = Some h \<and> cache w1 ''_symbolizer'' = Some h \<and>
           (cache w ''_symbolizer'' = None \<longrightarrow>
              h = length (symbolizers w) \<and>
              symbolizers w1 = symbolizers w @ [default_pointsym]) \<and>
           Shape_symbolizer w1 = (Some h, w1) \<and>
           (\<forall>ops. Shape_symbolizer (run_ops env ops w1) = (Some h, run_ops env ops w1) \<and>
                  length (symbolizers (run_ops env ops w1)) = length (symbolizers w1))"
proof (cases "cache w ''_symbolizer''")
  case None
  let ?h = "length (symbolizers w)"
  from None assms have r: "r = Some ?h" and
    w1: "w1 = w\<lparr>cache := (cache w)(''_symbolizer'' \<mapsto> ?h),
                symbolizers := symbolizers w @ [default_pointsym]\<rparr>"
    by (auto simp: Shape_symbolizer_first)
  from w1 have c: "cache w1 ''_symbolizer'' = Some ?h" by simp
  from w1 have s: "symbolizers w1 = symbolizers w @ [default_pointsym]" by simp
  have again: "Shape_symbolizer w1 = (Some ?h, w1)"
    using c by (rule Shape_symbolizer_cached)
  have later: "Shape_symbolizer (run_ops env ops w1) = (Some ?h, run_ops env ops w1) \<and>
               length (symbolizers (run_ops env ops w1)) = length (symbolizers w1)" for ops
    using run_ops_cached [OF c, of env ops] run_ops_length_cached [OF c, of env ops]
    by (simp add: Shape_symbolizer_cached)
  from r c s again later show ?thesis by blast
next
  case (Some h)
  with assms have r: "r = Some h" and w1: "w1 = w"
    by (simp_all add: Shape_symbolizer_cached)
  from Some w1 have c: "cache w1 ''_symbolizer'' = Some h" by simp
  have again: "Shape_symbolizer w1 = (Some h, w1)"
    using c by (rule Shape_symbolizer_cached)
  have later: "Shape_symbolizer (run_ops env ops w1) = (Some h, run_ops env ops w1) \<and>
               length (symbolizers (run_ops env ops w1)) = length (symbolizers w1)" for ops
    using run_ops_cached [OF c, of env ops] run_ops_length_cached [OF c, of env ops]
    by (simp add: Shape_symbolizer_cached)
  from r c Some again later show ?thesis by simp
qed

theorem Shape_symbolizer_memoized_witness:
  "fst (Shape_symbolizer shape0) = Some 0 \<and>
   fst (Shape_symbolizer (snd (Shape_symbolizer shape0))) = Some 0 \<and>
   fst (Shape_symbolizer
          (run_ops plain_collab [Set_opacity (JNum (Fin 0.5)), Get_config, Set_name (JStr ''star'')]
             (snd (Shape_symbolizer shape0)))) = Some 0 \<and>
   length (symbolizers
          (run_ops plain_collab [Set_opacity (JNum (Fin 0.5)), Get_config, Set_name (JStr ''star'')]
             (snd (Shape_symbolizer shape0)))) = 1"
proof -
  let ?w1 = "\<lparr>cache = [''_symbolizer'' \<mapsto> 0], symbolizers = [default_pointsym]\<rparr>"
  let ?ops = "[Set_opacity (JNum (Fin 0.5)), Get_config, Set_name (JStr ''star'')]"
  have run: "Shape_symbolizer shape0 = (Some 0, ?w1)"
    by (simp add: Shape_symbolizer_def shape0_def createPointSymbolizer_def
        Shape_set_symbolizer_def)
  from Shape_symbolizer_memoized [OF run, of plain_collab] have
    again: "Shape_symbolizer ?w1 = (Some 0, ?w1)" and
    later: "Shape_symbolizer (run_ops plain_collab ?ops ?w1) =
              (Some 0, run_ops plain_collab ?ops ?w1) \<and>
            length (symbolizers (run_ops plain_collab ?ops ?w1)) = length (symbolizers ?w1)"
    by auto
  from run again later show ?thesis by simp
qed

lemma write_then_read:
  assumes "shape_ok w"
  shows "read_symbolizer g (write_symbolizer f w) =
           (Some (g (f (symbolizers (snd (Shape_symbolizer w)) !
                          the (fst (Shape_symbolizer w))))),
            write_symbolizer f w)"
proof (cases "cache w ''_symbolizer''")
  case None
  then show ?thesis
    by (simp add: read_symbolizer_def write_symbolizer_def Shape_symbolizer_first
        Shape_symbolizer_cached)
next
  case (Some h)
  with assms have "h < length (symbolizers w)" by (simp add: shape_ok_def)
  with Some show ?thesis
    by (simp add: read_symbolizer_def write_symbolizer_def Shape_symbolizer_cached)
qed

text \<open>
  C5.  Assigning a number below 0 or above 1 to \<open>opacity\<close> throws the error whose
  message names the opacity and the bounds, before the engine is touched.  Assigning
  0, 0.5 or 1 does not throw, and the opacity then reads as that literal.
\<close>

theorem Shape_set_opacity_range:
  "(num_less v (Fin 0) \<or> num_less (Fin 1) v \<longrightarrow>
      Shape_set_opacity env (JNum v) w =
        Inl (Error ''Opacity must be a number between 0 and 1 (inclusive)'')) \<and>
   (v \<in> {Fin 0, Fin 0.5, Fin 1} \<longrightarrow>
      (\<exists>w'. Shape_set_opacity env (JNum v) w = Inr w' \<and>
            (shape_ok w \<longrightarrow> fst (Shape_opacity w') = Some (GtLiteralNum v))))"
proof -
  have bad: "Shape_set_opacity env (JNum v) w =
        Inl (Error ''Opacity must be a number between 0 and 1 (inclusive)'')"
    if "num_less v (Fin 0) \<or> num_less (Fin 1) v"
    using that by (simp add: Shape_set_opacity_def)
  have good: "\<exists>w'. Shape_set_opacity env (JNum v) w = Inr w' \<and>
            (shape_ok w \<longrightarrow> fst (Shape_opacity w') = Some (GtLiteralNum v))"
    if "v \<in> {Fin 0, Fin 0.5, Fin 1}"
  proof -
    from that have "\<not> (num_less v (Fin 0) \<or> num_less (Fin 1) v)" by auto
    then have "Shape_set_opacity env (JNum v) w =
                 Inr (write_symbolizer (\<lambda>p. p\<lparr>ps_opacity := GtLiteralNum v\<rparr>) w)"
      by (simp add: Shape_set_opacity_def)
    then show ?thesis
      by (simp add: Shape_opacity_def write_then_read)
  qed
  from bad good show ?thesis by blast
qed

theorem Shape_set_opacity_range_witness:
  "num_less (Fin 1) (Fin 1.5) \<and>
   Shape_set_opacity plain_collab (JNum (Fin 1.5)) shape0 =
     Inl (Error ''Opacity must be a number between 0 and 1 (inclusive)'') \<and>
   num_less (Fin (- 0.1)) (Fin 0) \<and>
   Shape_set_opacity plain_collab (JNum (Fin (- 0.1))) shape0 =
     Inl (Error ''Opacity must be a number between 0 and 1 (inclusive)'') \<and>
   shape_ok shape0 \<and>
   (case Shape_set_opacity plain_collab (JNum (Fin 0.5)) shape0 of
      Inl err \<Rightarrow> False
    | Inr w' \<Rightarrow> fst (Shape_opacity w') = Some (GtLiteralNum (Fin 0.5)))"
proof -
  have hi: "num_less (Fin 1) (Fin 1.5)" by simp
  have lo: "num_less (Fin (- 0.1)) (Fin 0)" by simp
  have ok: "shape_ok shape0" by (simp add: shape_ok_def shape0_def)
  from Shape_set_opacity_range [of "Fin 1.5" plain_collab shape0] hi
  have one: "Shape_set_opacity plain_collab (JNum (Fin 1.5)) shape0 =
     Inl (Error ''Opacity must be a number between 0 and 1 (inclusive)'')"
    by blast
  from Shape_set_opacity_range [of "Fin (- 0.1)" plain_collab shape0] lo
  have two: "Shape_set_opacity plain_collab (JNum (Fin (- 0.1))) shape0 =
     Inl (Error ''Opacity must be a number between 0 and 1 (inclusive)'')"
    by blast
  from Shape_set_opacity_range [of "Fin 0.5" plain_collab shape0] ok
  obtain w' where "Shape_set_opacity plain_collab (JNum (Fin 0.5)) shape0 = Inr w'"
    "fst (Shape_opacity w') = Some (GtLiteralNum (Fin 0.5))"
    by auto
  with hi lo ok one two show ?thesis by simp
qed

section \<open>The round trip of the schema configuration\<close>

lemma Field_roundtrip_list:
  assumes "Field_roundtrip env"
  shows "\<exists>ds'. map (field_descriptor env) (map (Field_config env) ds) = map Inr ds' \<and>
               map (Field_config env) ds' = map (Field_config env) ds"
proof (induction ds)
  case Nil
  show ?case by simp
next
  case (Cons d ds)
  from assms obtain d' where
    d': "field_descriptor env (Field_config env d) = Inr d'"
        "Field_config env d' = Field_config env d"
    unfolding Field_roundtrip_def by blast
  from Cons.IH obtain ds' where
    ds': "map (field_descriptor env) (map (Field_config env) ds) = map Inr ds'"
         "map (Field_config env) ds' = map (Field_config env) ds"
    by blast
  from d' ds' have
    "map (field_descriptor env) (map (Field_config env) (d # ds)) = map Inr (d' # ds') \<and>
     map (Field_config env) (d' # ds') = map (Field_config env) (d # ds)"
    by simp
  then show ?case by blast
qed

lemma plain_collab_Field_roundtrip: "Field_roundtrip plain_collab"
  unfolding Field_roundtrip_def
proof
  fix d :: descriptor
  have "field_descriptor plain_collab (Field_config plain_collab d) = Inr d"
    by (cases "d_crs d")
       (simp_all add: field_descriptor_def plain_collab_def plain_Field_config_def
          plain_Field_new_def)
  then show "\<exists>d'. field_descriptor plain_collab (Field_config plain_collab d) = Inr d' \<and>
               Field_config plain_collab d' = Field_config plain_collab d"
    by simp
qed

lemma copies_get_prop:
  assumes "copies_properties env" and "distinct (map fst kvs)"
  shows "get_prop (prepConfig env (JObj kvs)) k = get_prop (JObj kvs) k"
  using assms by (simp add: prepConfig_def copies_properties_def)

lemma valid_config_name:
  assumes "valid_config env C"
  shows "to_string env (if truthy (get_prop (prepConfig env C) ''name'')
                        then get_prop (prepConfig env C) ''name'' else JStr ''feature'') =
           Inr (config_name env C)"
    and "config_name env C \<noteq> []"
  using assms
  by (cases "get_prop (prepConfig env C) ''name''"; simp add: valid_config_def config_name_def)+

text \<open>
  C1.  Take a valid configuration whose normalized \<open>fields\<close> are an array of values that
  are fields or that \<open>new Field\<close> accepts, with descriptors \<open>ds\<close>.  The constructor
  builds the schema with the configured name and those descriptors.  Its \<open>config\<close> is the
  mapping of the type discriminator \<open>Schema\<close>, that name, and the \<open>config\<close> of the field
  of each descriptor, in order.  The constructor builds a second schema from that mapping,
  with the same name and with fields of the same \<open>config\<close>, and the \<open>config\<close> of the
  second schema is the same mapping.  The nested \<open>Field\<close> wrapper is asked to satisfy the
  same law, and \<open>UTIL.apply\<close> to copy the properties of a plain object.
\<close>

theorem Schema_config_roundtrip:
  assumes "copies_properties env" and "Field_roundtrip env"
    and "valid_config env C"
    and "get_prop (prepConfig env C) ''fields'' = JArr fs"
    and "map (field_descriptor env) fs = map Inr ds"
  shows "\<exists>g1 g2 ds'.
           Schema_constructor env C g =
             (g1, Inr \<lparr>schema_handle = Some \<lparr>ft_name = config_name env C, ft_attrs = ds\<rparr>\<rparr>) \<and>
           Schema_config env \<lparr>schema_handle = Some \<lparr>ft_name = config_name env C, ft_attrs = ds\<rparr>\<rparr> =
             Inr (JObj [(''type'', JStr ''Schema''), (''name'', JStr (config_name env C)),
                        (''fields'', JArr (map (Field_config env) ds))]) \<and>
           Schema_constructor env
               (JObj [(''type'', JStr ''Schema''), (''name'', JStr (config_name env C)),
                      (''fields'', JArr (map (Field_config env) ds))]) g1 =
             (g2, Inr \<lparr>schema_handle = Some \<lparr>ft_name = config_name env C, ft_attrs = ds'\<rparr>\<rparr>) \<and>
           map (Field_config env) ds' = map (Field_config env) ds \<and>
           Schema_config env \<lparr>schema_handle = Some \<lparr>ft_name = config_name env C, ft_attrs = ds'\<rparr>\<rparr> =
             Inr (JObj [(''type'', JStr ''Schema''), (''name'', JStr (config_name env C)),
                        (''fields'', JArr (map (Field_config env) ds))])"
proof -
  define nm where "nm = config_name env C"
  let ?s = "\<lparr>schema_handle = Some \<lparr>ft_name = nm, ft_attrs = ds\<rparr>\<rparr>"
  let ?cfg = "JObj [(''type'', JStr ''Schema''), (''name'', JStr nm),
                    (''fields'', JArr (map (Field_config env) ds))]"
  from assms(3) have t: "truthy C" by (simp add: valid_config_def)
  from valid_config_name [OF assms(3)] have
    name: "to_string env (if truthy (get_prop (prepConfig env C) ''name'')
                          then get_prop (prepConfig env C) ''name'' else JStr ''feature'') = Inr nm"
    and nonempty: "nm \<noteq> []"
    by (simp_all add: nm_def)
  from Schema_constructor_run [OF t assms(4,5) name, of g] obtain g1 where
    first: "Schema_constructor env C g = (g1, Inr ?s)"
    by blast
  have cfg: "Schema_config env ?s = Inr ?cfg"
    by (simp add: Schema_config_def Schema_name_def Schema_fields_def)
  have dist: "distinct (map fst [(''type'', JStr ''Schema''), (''name'', JStr nm),
                    (''fields'', JArr (map (Field_config env) ds))])"
    by simp
  have f2: "get_prop (prepConfig env ?cfg) ''fields'' = JArr (map (Field_config env) ds)"
    by (subst copies_get_prop [OF assms(1) dist]) simp
  have n2: "get_prop (prepConfig env ?cfg) ''name'' = JStr nm"
    by (subst copies_get_prop [OF assms(1) dist]) simp
  from n2 nonempty have name2:
    "to_string env (if truthy (get_prop (prepConfig env ?cfg) ''name'')
                    then get_prop (prepConfig env ?cfg) ''name'' else JStr ''feature'') = Inr nm"
    by simp
  from Field_roundtrip_list [OF assms(2), of ds] obtain ds' where
    ds': "map (field_descriptor env) (map (Field_config env) ds) = map Inr ds'"
         "map (Field_config env) ds' = map (Field_config env) ds"
    by blast
  have t2: "truthy ?cfg" by simp
  let ?s2 = "\<lparr>schema_handle = Some \<lparr>ft_name = nm, ft_attrs = ds'\<rparr>\<rparr>"
  from Schema_constructor_run [OF t2 f2 ds'(1) name2, of g1] obtain g2 where
    second: "Schema_constructor env ?cfg g1 = (g2, Inr ?s2)"
    by blast
  have again: "Schema_config env ?s2 = Inr ?cfg"
    using ds'(2) by (simp add: Schema_config_def Schema_name_def Schema_fields_def)
  from first cfg second ds'(2) again show ?thesis
    unfolding nm_def by blast
qed

theorem Schema_config_roundtrip_witness:
  "valid_config plain_collab
     (JObj [(''name'', JStr ''cities''),
            (''fields'', JArr [JObj [(''name'', JStr ''the_geom''), (''type'', JStr ''Point''),
                                     (''projection'', JStr ''EPSG:4326'')],
                               JObj [(''name'', JStr ''name''), (''type'', JStr ''String'')]])]) \<and>
   snd (Schema_constructor plain_collab
     (JObj [(''name'', JStr ''cities''),
            (''fields'', JArr [JObj [(''name'', JStr ''the_geom''), (''type'', JStr ''Point''),
                                     (''projection'', JStr ''EPSG:4326'')],
                               JObj [(''name'', JStr ''name''), (''type'', JStr ''String'')]])])
     gt0) =
     Inr \<lparr>schema_handle = Some \<lparr>ft_name = ''cities'', ft_attrs =
           [\<lparr>d_name = ''the_geom'', d_type = ''Point'', d_crs = Some ''EPSG:4326''\<rparr>,
            \<lparr>d_name = ''name'', d_type = ''String'', d_crs = None\<rparr>]\<rparr>\<rparr> \<and>
   Schema_config plain_collab
     \<lparr>schema_handle = Some \<lparr>ft_name = ''cities'', ft_attrs =
           [\<lparr>d_name = ''the_geom'', d_type = ''Point'', d_crs = Some ''EPSG:4326''\<rparr>,
            \<lparr>d_name = ''name'', d_type = ''String'', d_crs = None\<rparr>]\<rparr>\<rparr> =
     Inr (JObj [(''type'', JStr ''Schema''), (''name'', JStr ''cities''),
            (''fields'', JArr [JObj [(''name'', JStr ''the_geom''), (''type'', JStr ''Point''),
                                     (''projection'', JStr ''EPSG:4326'')],
                               JObj [(''name'', JStr ''name''), (''type'', JStr ''String'')]])]) \<and>
   (case snd (Schema_constructor plain_collab
          (JObj [(''type'', JStr ''Schema''), (''name'', JStr ''cities''),
            (''fields'', JArr [JObj [(''name'', JStr ''the_geom''), (''type'', JStr ''Point''),
                                     (''projection'', JStr ''EPSG:4326'')],
                               JObj [(''name'', JStr ''name''), (''type'', JStr ''String'')]])])
          (fst (Schema_constructor plain_collab
             (JObj [(''name'', JStr ''cities''),
               (''fields'', JArr [JObj [(''name'', JStr ''the_geom''), (''type'', JStr ''Point''),
                                        (''projection'', JStr ''EPSG:4326'')],
                                  JObj [(''name'', JStr ''name''), (''type'', JStr ''String'')]])])
             gt0))) of
      Inl e \<Rightarrow> False
    | Inr s2 \<Rightarrow>
        Schema_config plain_collab s2 =
          Inr (JObj [(''type'', JStr ''Schema''), (''name'', JStr ''cities''),
            (''fields'', JArr [JObj [(''name'', JStr ''the_geom''), (''type'', JStr ''Point''),
                                     (''projection'', JStr ''EPSG:4326'')],
                               JObj [(''name'', JStr ''name''), (''type'', JStr ''String'')]])]))"
proof -
  let ?f1 = "JObj [(''name'', JStr ''the_geom''), (''type'', JStr ''Point''),
                   (''projection'', JStr ''EPSG:4326'')]"
  let ?f2 = "JObj [(''name'', JStr ''name''), (''type'', JStr ''String'')]"
  let ?C = "JObj [(''name'', JStr ''cities''), (''fields'', JArr [?f1, ?f2])]"
  let ?d1 = "\<lparr>d_name = ''the_geom'', d_type = ''Point'', d_crs = Some ''EPSG:4326''\<rparr>"
  let ?d2 = "\<lparr>d_name = ''name'', d_type = ''String'', d_crs = None\<rparr>"
  have fs: "get_prop (prepConfig plain_collab ?C) ''fields'' = JArr [?f1, ?f2]"
    by (simp add: prepConfig_def plain_collab_def plain_apply_def)
  have nm: "get_prop (prepConfig plain_collab ?C) ''name'' = JStr ''cities''"
    by (simp add: prepConfig_def plain_collab_def plain_apply_def)
  have ds: "map (field_descriptor plain_collab) [?f1, ?f2] = map Inr [?d1, ?d2]"
    by (simp add: field_descriptor_def plain_collab_def plain_Field_new_def)
  from nm have v: "valid_config plain_collab ?C"
    by (simp add: valid_config_def)
  from nm have cn: "config_name plain_collab ?C = ''cities''"
    by (simp add: config_name_def)
  have fc: "map (Field_config plain_collab) [?d1, ?d2] = [?f1, ?f2]"
    by (simp add: plain_collab_def plain_Field_config_def)
  from Schema_config_roundtrip
         [OF plain_collab_copies plain_collab_Field_roundtrip v fs ds, of gt0]
  show ?thesis
    unfolding cn fc using v by auto
qed

section \<open>The round trip of the Shape configuration\<close>

lemma write_symbolizer_first:
  "cache w ''_symbolizer'' = None \<Longrightarrow>
   write_symbolizer f w =
     w\<lparr>cache := (cache w)(''_symbolizer'' \<mapsto> length (symbolizers w)),
       symbolizers := symbolizers w @ [f default_pointsym]\<rparr>"
  by (simp add: write_symbolizer_def Shape_symbolizer_first)

lemma write_symbolizer_hit:
  "cache w ''_symbolizer'' = Some h \<Longrightarrow>
   write_symbolizer f w = w\<lparr>symbolizers := (symbolizers w)[h := f (symbolizers w ! h)]\<rparr>"
  by (simp add: write_symbolizer_def Shape_symbolizer_cached)

lemma read_symbolizer_hit:
  "cache w ''_symbolizer'' = Some h \<Longrightarrow> h < length (symbolizers w) \<Longrightarrow>
   read_symbolizer f w = (Some (f (symbolizers w ! h)), w)"
  by (simp add: read_symbolizer_def Shape_symbolizer_cached)

lemma read_symbolizer_Some:
  assumes "shape_ok w" and "read_symbolizer f w = (r, w1)"
  shows "\<exists>h. cache w1 ''_symbolizer'' = Some h \<and> h < length (symbolizers w1) \<and>
             r = Some (f (symbolizers w1 ! h)) \<and> w1 = snd (Shape_symbolizer w)"
proof (cases "cache w ''_symbolizer''")
  case None
  with assms(2) show ?thesis
    by (auto simp: read_symbolizer_def Shape_symbolizer_first)
next
  case (Some h)
  with assms(1) have "h < length (symbolizers w)" by (simp add: shape_ok_def)
  with Some assms(2) show ?thesis
    by (auto simp: read_symbolizer_def Shape_symbolizer_cached)
qed

lemma Shape_config_hit:
  assumes "cache w ''_symbolizer'' = Some h" and "h < length (symbolizers w)"
  shows "Shape_config env w =
           (Some (JObj [(''type'', JStr ''Shape''),
                        (''name'', Expression_config env (ps_name (symbolizers w ! h))),
                        (''size'', Expression_config env (ps_size (symbolizers w ! h))),
                        (''opacity'', Expression_config env (ps_opacity (symbolizers w ! h))),
                        (''rotation'', Expression_config env (ps_rotation (symbolizers w ! h))),
                        (''fill'', Fill_config env (ps_fill (symbolizers w ! h))),
                        (''stroke'', Stroke_config env (ps_stroke (symbolizers w ! h)))]), w)"
  by (simp add: Shape_config_def Shape_name_def Shape_size_def Shape_opacity_def
      Shape_rotation_def Shape_fill_def Shape_stroke_def read_symbolizer_hit [OF assms])

lemma Shape_config_state:
  assumes "shape_ok w"
  shows "\<exists>h. cache (snd (Shape_symbolizer w)) ''_symbolizer'' = Some h \<and>
             h < length (symbolizers (snd (Shape_symbolizer w))) \<and>
             Shape_config env w = Shape_config env (snd (Shape_symbolizer w))"
proof (cases "cache w ''_symbolizer''")
  case None
  let ?w1 = "snd (Shape_symbolizer w)"
  from None have w1: "cache ?w1 ''_symbolizer'' = Some (length (symbolizers w))"
    "length (symbolizers w) < length (symbolizers ?w1)"
    by (simp_all add: Shape_symbolizer_first)
  have r: "read_symbolizer f w = read_symbolizer f ?w1" for f :: "pointsym \<Rightarrow> 'b"
    using None by (simp add: read_symbolizer_def Shape_symbolizer_first Shape_symbolizer_cached)
  have "Shape_config env w = Shape_config env ?w1"
    unfolding Shape_config_def Shape_name_def
    by (subst r) (rule refl)
  with w1 show ?thesis by blast
next
  case (Some h)
  with assms have "h < length (symbolizers w)" by (simp add: shape_ok_def)
  with Some show ?thesis by (simp add: Shape_symbolizer_cached)
qed

text \<open>
  The same round trip for \<open>Shape\<close>, with the constructor of \<open>Symbolizer\<close> as modelled
  above: the \<open>config\<close> of a shape has the type discriminator \<open>Shape\<close> and the
  \<open>config\<close> of each property, a shape is constructed from it, and that shape has the
  same \<open>config\<close>.
\<close>

lemma Shape_config_roundtrip:
  assumes "Expression_roundtrip env" and "Fill_roundtrip env" and "Stroke_roundtrip env"
    and "shape_ok w" and "Shape_config env w = (r, w1)"
  shows "\<exists>h cfg w2.
           cache w1 ''_symbolizer'' = Some h \<and> h < length (symbolizers w1) \<and>
           cfg = JObj [(''type'', JStr ''Shape''),
                       (''name'', Expression_config env (ps_name (symbolizers w1 ! h))),
                       (''size'', Expression_config env (ps_size (symbolizers w1 ! h))),
                       (''opacity'', Expression_config env (ps_opacity (symbolizers w1 ! h))),
                       (''rotation'', Expression_config env (ps_rotation (symbolizers w1 ! h))),
                       (''fill'', Fill_config env (ps_fill (symbolizers w1 ! h))),
                       (''stroke'', Stroke_config env (ps_stroke (symbolizers w1 ! h)))] \<and>
           r = Some cfg \<and>
           Shape_constructor env cfg w1 = Inr w2 \<and>
           fst (Shape_config env w2) = Some cfg"
proof -
  from Shape_config_state [OF assms(4), of env] obtain h where
    h: "cache (snd (Shape_symbolizer w)) ''_symbolizer'' = Some h"
       "h < length (symbolizers (snd (Shape_symbolizer w)))"
       "Shape_config env w = Shape_config env (snd (Shape_symbolizer w))"
    by blast
  define p where "p = symbolizers (snd (Shape_symbolizer w)) ! h"
  from assms(1) obtain kn n' where
    n: "Expression_config env (ps_name p) = JObj kn" "Expression_new env (JObj kn) = Inr n'"
       "Expression_config env n' = JObj kn"
    unfolding Expression_roundtrip_def by blast
  from assms(1) obtain ks s' where
    s: "Expression_config env (ps_size p) = JObj ks" "Expression_new env (JObj ks) = Inr s'"
       "Expression_config env s' = JObj ks"
    unfolding Expression_roundtrip_def by blast
  from assms(1) obtain ko o' where
    o: "Expression_config env (ps_opacity p) = JObj ko" "Expression_new env (JObj ko) = Inr o'"
       "Expression_config env o' = JObj ko"
    unfolding Expression_roundtrip_def by blast
  from assms(1) obtain kr r' where
    ro: "Expression_config env (ps_rotation p) = JObj kr" "Expression_new env (JObj kr) = Inr r'"
       "Expression_config env r' = JObj kr"
    unfolding Expression_roundtrip_def by blast
  from assms(2) obtain kf f' where
    f: "Fill_config env (ps_fill p) = JObj kf" "Fill_new env (JObj kf) = Inr f'"
       "Fill_config env f' = JObj kf"
    unfolding Fill_roundtrip_def by blast
  from assms(3) obtain kt t' where
    t: "Stroke_config env (ps_stroke p) = JObj kt" "Stroke_new env (JObj kt) = Inr t'"
       "Stroke_config env t' = JObj kt"
    unfolding Stroke_roundtrip_def by blast
  let ?cfg = "JObj [(''type'', JStr ''Shape''), (''name'', JObj kn), (''size'', JObj ks),
                    (''opacity'', JObj ko), (''rotation'', JObj kr), (''fill'', JObj kf),
                    (''stroke'', JObj kt)]"
  from Shape_config_hit [OF h(1,2), of env] h(3) assms(5) n(1) s(1) o(1) ro(1) f(1) t(1)
  have r: "r = Some ?cfg" and w1: "w1 = snd (Shape_symbolizer w)"
    by (simp_all add: p_def)
  let ?L = "length (symbolizers w1)"
  let ?w2 = "\<lparr>cache = [''_symbolizer'' \<mapsto> ?L],
             symbolizers = symbolizers w1 @
               [\<lparr>ps_name = n', ps_size = s', ps_opacity = o', ps_rotation = r',
                 ps_fill = f', ps_stroke = t'\<rparr>]\<rparr>"
  have build: "Shape_constructor env ?cfg w1 = Inr ?w2"
    using n(2) s(2) o(2) ro(2) f(2) t(2)
    by (simp add: Shape_constructor_def Shape_constructor_config_def Symbolizer_constructor_def
        Shape_set_name_def Shape_set_size_def Shape_set_opacity_def Shape_set_rotation_def
        Shape_set_fill_def Shape_set_stroke_def write_symbolizer_first write_symbolizer_hit
        default_pointsym_def)
  have c2: "cache ?w2 ''_symbolizer'' = Some ?L" "?L < length (symbolizers ?w2)"
    by simp_all
  from Shape_config_hit [OF c2, of env] n(3) s(3) o(3) ro(3) f(3) t(3)
  have last: "fst (Shape_config env ?w2) = Some ?cfg" by simp
  from h(1,2) w1 have hit: "cache w1 ''_symbolizer'' = Some h" "h < length (symbolizers w1)"
    by simp_all
  from n(1) s(1) o(1) ro(1) f(1) t(1) w1 have pin:
    "?cfg = JObj [(''type'', JStr ''Shape''),
                  (''name'', Expression_config env (ps_name (symbolizers w1 ! h))),
                  (''size'', Expression_config env (ps_size (symbolizers w1 ! h))),
                  (''opacity'', Expression_config env (ps_opacity (symbolizers w1 ! h))),
                  (''rotation'', Expression_config env (ps_rotation (symbolizers w1 ! h))),
                  (''fill'', Fill_config env (ps_fill (symbolizers w1 ! h))),
                  (''stroke'', Stroke_config env (ps_stroke (symbolizers w1 ! h)))]"
    by (simp add: p_def)
  from hit pin r build last show ?thesis
    by (intro exI [of _ h] exI [of _ ?cfg] exI [of _ ?w2] conjI)
qed

lemma plain_collab_Expression_roundtrip: "Expression_roundtrip plain_collab"
  unfolding Expression_roundtrip_def
proof
  fix e :: gt_expr
  show "\<exists>kvs e'. Expression_config plain_collab e = JObj kvs \<and>
                   Expression_new plain_collab (JObj kvs) = Inr e' \<and>
                   Expression_config plain_collab e' = JObj kvs"
    by (cases e) (simp_all add: plain_collab_def)
qed

lemma plain_collab_Fill_roundtrip: "Fill_roundtrip plain_collab"
  by (simp add: Fill_roundtrip_def plain_collab_def)

lemma plain_collab_Stroke_roundtrip: "Stroke_roundtrip plain_collab"
  by (simp add: Stroke_roundtrip_def plain_collab_def)

lemma Shape_config_roundtrip_example:
  "case Shape_config plain_collab shape0 of
     (None, w1) \<Rightarrow> False
   | (Some cfg, w1) \<Rightarrow>
       (case Shape_constructor plain_collab cfg w1 of
          Inl err \<Rightarrow> False
        | Inr w2 \<Rightarrow> fst (Shape_config plain_collab w2) = Some cfg)"
proof -
  obtain r w1 where c: "Shape_config plain_collab shape0 = (r, w1)"
    by (cases "Shape_config plain_collab shape0")
  have ok: "shape_ok shape0" by (simp add: shape_ok_def shape0_def)
  from Shape_config_roundtrip [OF plain_collab_Expression_roundtrip
      plain_collab_Fill_roundtrip plain_collab_Stroke_roundtrip ok c]
  obtain cfg w2 where "r = Some cfg" "Shape_constructor plain_collab cfg w1 = Inr w2"
    "fst (Shape_config plain_collab w2) = Some cfg"
    by blast
  with c show ?thesis by simp
qed

end
